theory Spec2Isabelle
  imports Complex_Main "HOL-Library.Stream" "HOL-Library.AList" "HOL-Library.Char_ord"
    "HOL-Library.List_Lexorder"
begin

section \<open>Conventions\<close>

text \<open>
  JavaScript numbers are modelled as mathematical reals: every arithmetic operation of the
  source is the exact operation, without rounding, overflow, NaN or infinities.
  Objects \<open>{x, z}\<close> and two-element arrays \<open>[x, z]\<close> are pairs, a \<open>THREE.Vector3\<close> is a
  triple. \<open>Math.random()\<close> reads the head of a stream of reals that is threaded through
  every function that draws; the language guarantees each draw to lie in \<open>[0, 1)\<close>, which
  theorems assume where they need it. A value that is \<open>undefined\<close> in the source is
  \<open>None\<close>, and reading a property of it is the error \<open>TypeError\<close>.
\<close>

type_synonym vec2 = "real \<times> real"
type_synonym vec3 = "real \<times> real \<times> real"
type_synonym rng = "real stream"

datatype error = TypeError

definition unit_draws :: "rng \<Rightarrow> bool" where
  "unit_draws g = (\<forall>n. 0 \<le> g !! n \<and> g !! n < 1)"

section \<open>Steering math (pets-core/utils.js)\<close>

definition clamp :: "real \<Rightarrow> real \<Rightarrow> real \<Rightarrow> real" where
  "clamp v a b = max a (min b v)"

definition lerp :: "real \<Rightarrow> real \<Rightarrow> real \<Rightarrow> real" where
  "lerp a b s = a + (b - a) * s"

text \<open>The remainder operator \<open>%\<close> of JavaScript truncates the quotient toward zero, so the
  result carries the sign of the dividend.\<close>

definition js_trunc :: "real \<Rightarrow> int" where
  "js_trunc q = (if 0 \<le> q then \<lfloor>q\<rfloor> else \<lceil>q\<rceil>)"

definition js_rem :: "real \<Rightarrow> real \<Rightarrow> real" where
  "js_rem n d = n - d * of_int (js_trunc (n / d))"

definition dampAngle :: "real \<Rightarrow> real \<Rightarrow> real \<Rightarrow> real" where
  "dampAngle a b s = (let d = js_rem (b - a + pi) (pi * 2) - pi in a + d * s)"

text \<open>\<open>pick\<close> indexes the array with the floor of \<open>random * length\<close>; an index outside the
  array reads \<open>undefined\<close>.\<close>

definition pick :: "'a list \<Rightarrow> real \<Rightarrow> 'a option" where
  "pick arr r =
     (let i = \<lfloor>r * real (length arr)\<rfloor>
      in if 0 \<le> i \<and> nat i < length arr then Some (arr ! nat i) else None)"

definition randRange :: "real \<Rightarrow> real \<Rightarrow> real \<Rightarrow> real" where
  "randRange a b r = lerp a b r"

definition hash1 :: "real \<Rightarrow> real" where
  "hash1 n = (let x = sin n * 43758.5453123 in x - of_int \<lfloor>x\<rfloor>)"

definition smoothstep :: "real \<Rightarrow> real" where
  "smoothstep s = s * s * (3 - 2 * s)"

definition noise1D :: "real \<Rightarrow> real \<Rightarrow> real" where
  "noise1D x seed =
     (let i0 = of_int \<lfloor>x\<rfloor>;
          i1 = i0 + 1;
          s = smoothstep (x - i0);
          a = hash1 (i0 * 127.1 + seed * 311.7);
          b = hash1 (i1 * 127.1 + seed * 311.7)
      in lerp a b s * 2 - 1)"

text \<open>\<open>Math.atan2 (y, x)\<close> on reals.\<close>

definition atan2 :: "real \<Rightarrow> real \<Rightarrow> real" where
  "atan2 y x =
     (if 0 < x then arctan (y / x)
      else if x < 0 \<and> 0 \<le> y then arctan (y / x) + pi
      else if x < 0 then arctan (y / x) - pi
      else if 0 < y then pi / 2
      else if y < 0 then - (pi / 2)
      else 0)"

text \<open>The shortest angular distance between two headings, in \<open>[0, pi]\<close>: the measure the
  yaw-convergence property speaks about.\<close>

definition ang_dist :: "real \<Rightarrow> real \<Rightarrow> real" where
  "ang_dist a b =
     (let r = (a - b) - 2 * pi * of_int \<lfloor>(a - b) / (2 * pi)\<rfloor>
      in min r (2 * pi - r))"

section \<open>Agent brain (pets-core/ai/brain.js)\<close>

datatype mode =
  Wandering | Socializing | Resting | Curious | Held | Chasing | Running | Sleeping | Following

record brain_state =
  b_mode :: mode
  b_t :: real
  b_seed :: real
  b_walkS :: real
  b_restSpot :: vec3
  b_lastInteractAt :: real

text \<open>The chase episode (\<open>ChaseMode\<close> of pets-core/ai/social.js), read by the brain. The two
  ids are \<open>null\<close> while no episode runs.\<close>

record chase_mode =
  c_active :: bool
  c_until :: real
  c_chaserId :: "string option"
  c_runnerId :: "string option"
  c_runnerPos :: vec3
  c_chaserPos :: vec3

text \<open>The \<open>PERSONALITY\<close> table.\<close>

definition curiosityChancePerS :: real where "curiosityChancePerS = 0.11"
definition curiosityDuration :: vec2 where "curiosityDuration = (1.2, 2.2)"
definition restChancePerS :: real where "restChancePerS = 0.10"
definition restDuration :: vec2 where "restDuration = (2.6, 4.8)"
definition restAfterWalkS :: real where "restAfterWalkS = 10"
definition chaseChancePerS :: real where "chaseChancePerS = 0.04"
definition chaseDuration :: vec2 where "chaseDuration = (3.8, 5.2)"
definition sleepAfterNoInteractS :: real where "sleepAfterNoInteractS = 22"

definition createBrainState :: "real \<Rightarrow> brain_state" where
  "createBrainState seed =
     \<lparr> b_mode = Wandering, b_t = 0,
       b_seed = js_rem (of_int \<lfloor>seed\<rfloor>) 10000,
       b_walkS = 0, b_restSpot = (0, 0, 0), b_lastInteractAt = 0 \<rparr>"

record brain_params =
  bp_dt :: real
  bp_time :: real
  bp_isHeld :: bool
  bp_socialActive :: bool
  bp_playerDist2 :: real
  bp_chaseMode :: "chase_mode option"
  bp_petId :: string
  bp_rugs :: "vec2 list"

text \<open>\<open>if (rugs.length > 0) { const spot = pick(rugs); brain.restSpot = ... }\<close>: one draw;
  reading \<open>spot[0]\<close> of \<open>undefined\<close> throws.\<close>

definition pickRestSpot :: "brain_state \<Rightarrow> vec2 list \<Rightarrow> rng \<Rightarrow> error + brain_state \<times> rng" where
  "pickRestSpot br rugs g =
     (if length rugs > 0
      then (case pick rugs (shd g) of
              None \<Rightarrow> Inl TypeError
            | Some spot \<Rightarrow> Inr (br\<lparr>b_restSpot := (fst spot, 0, snd spot)\<rparr>, stl g))
      else Inr (br, g))"

text \<open>The block "Sleep check". \<open>now\<close> is \<open>performance.now() * 0.001\<close>. The draw of
  \<open>Math.random()\<close> is made only when the idle time exceeds the threshold.\<close>

definition sleepCheck ::
  "brain_state \<Rightarrow> brain_params \<Rightarrow> real \<Rightarrow> rng \<Rightarrow> error + brain_state \<times> rng" where
  "sleepCheck br ps now g =
     (let sinceInteract = now - b_lastInteractAt br
      in if b_mode br \<noteq> Sleeping \<and> bp_playerDist2 ps \<le> 64
         then (if sinceInteract > sleepAfterNoInteractS
               then (if shd g < 0.035 * bp_dt ps
                     then pickRestSpot
                            (br\<lparr>b_mode := Sleeping, b_t := randRange 3.0 6.0 (shd (stl g))\<rparr>)
                            (bp_rugs ps) (stl (stl g))
                     else Inr (br, stl g))
               else Inr (br, g))
         else Inr (br, g))"

text \<open>The block "Wandering state transitions".\<close>

definition wanderTransitions ::
  "brain_state \<Rightarrow> brain_params \<Rightarrow> rng \<Rightarrow> error + brain_state \<times> rng" where
  "wanderTransitions br ps g =
     (if b_mode br = Wandering
      then (let b1 = br\<lparr>b_walkS := b_walkS br + bp_dt ps\<rparr>;
                shouldFollow = bp_playerDist2 ps > 64
            in if shouldFollow then Inr (b1\<lparr>b_mode := Following\<rparr>, g)
               else if b_walkS b1 > restAfterWalkS
               then (if shd g < restChancePerS * bp_dt ps
                     then pickRestSpot
                            (b1\<lparr>b_mode := Resting,
                                b_t := randRange (fst restDuration) (snd restDuration) (shd (stl g)),
                                b_walkS := 0\<rparr>)
                            (bp_rugs ps) (stl (stl g))
                     else (if shd (stl g) < curiosityChancePerS * bp_dt ps
                           then Inr (b1\<lparr>b_mode := Curious,
                                        b_t := randRange (fst curiosityDuration) (snd curiosityDuration)
                                                 (shd (stl (stl g)))\<rparr>,
                                     stl (stl (stl g)))
                           else Inr (b1, stl (stl g))))
               else (if shd g < curiosityChancePerS * bp_dt ps
                     then Inr (b1\<lparr>b_mode := Curious,
                                  b_t := randRange (fst curiosityDuration) (snd curiosityDuration)
                                           (shd (stl g))\<rparr>,
                               stl (stl g))
                     else Inr (b1, stl g)))
      else Inr (br, g))"

text \<open>The block "Following -> wandering when close again".\<close>

definition followRevert :: "brain_state \<Rightarrow> brain_params \<Rightarrow> brain_state" where
  "followRevert br ps =
     (if b_mode br = Following \<and> bp_playerDist2 ps \<le> 64
      then br\<lparr>b_mode := Wandering, b_walkS := 0\<rparr> else br)"

text \<open>The block "Curious/resting/sleeping timer expiry".\<close>

definition timerExpiry :: "brain_state \<Rightarrow> brain_state" where
  "timerExpiry br =
     (if (b_mode br = Curious \<or> b_mode br = Resting \<or> b_mode br = Sleeping) \<and> b_t br \<le> 0
      then br\<lparr>b_mode := Wandering\<rparr> else br)"

definition chaseActive :: "chase_mode option \<Rightarrow> bool" where
  "chaseActive ch = (case ch of None \<Rightarrow> False | Some c \<Rightarrow> c_active c)"

definition updateBrain ::
  "brain_state \<Rightarrow> brain_params \<Rightarrow> real \<Rightarrow> rng \<Rightarrow> error + brain_state \<times> rng" where
  "updateBrain brain ps now g =
     (let br = brain\<lparr>b_t := b_t brain - bp_dt ps\<rparr>
      in if bp_isHeld ps then Inr (br\<lparr>b_mode := Held\<rparr>, g)
         else if chaseActive (bp_chaseMode ps)
         then (let ch = the (bp_chaseMode ps)
               in if c_chaserId ch = Some (bp_petId ps)
                  then Inr (br\<lparr>b_mode := Chasing, b_t := c_until ch - bp_time ps\<rparr>, g)
                  else if c_runnerId ch = Some (bp_petId ps)
                  then Inr (br\<lparr>b_mode := Running, b_t := c_until ch - bp_time ps\<rparr>, g)
                  else Inr (br, g))
         else if bp_socialActive ps then Inr (br\<lparr>b_mode := Socializing\<rparr>, g)
         else (case sleepCheck br ps now g of
                 Inl e \<Rightarrow> Inl e
               | Inr (b1, g1) \<Rightarrow>
                   (case wanderTransitions b1 ps g1 of
                      Inl e \<Rightarrow> Inl e
                    | Inr (b2, g2) \<Rightarrow> Inr (timerExpiry (followRevert b2 ps), g2))))"

record bounds =
  minX :: real
  maxX :: real
  minZ :: real
  maxZ :: real

record move_params =
  mp_dt :: real
  mp_time :: real
  mp_bounds :: bounds
  mp_playerPos :: vec2
  mp_chaseMode :: "chase_mode option"
  mp_separationVec :: "vec2 option"
  mp_isMobile :: bool
  mp_baseY :: real

text \<open>Steering toward a target offset \<open>(dx, dz)\<close> at the given gain, as the follow, chase and
  run branches do: the offset is normalised only when its length exceeds \<open>0.001\<close>, and the
  velocity is then damped by \<open>0.86 ^ (dt * 60)\<close>.\<close>

definition seek :: "vec2 \<Rightarrow> vec2 \<Rightarrow> real \<Rightarrow> real \<Rightarrow> vec2" where
  "seek v off gain dt =
     (let dx = fst off; dz = snd off;
          d = sqrt (dx * dx + dz * dz);
          v1 = (if d > 0.001
                then (let nx = dx / d; nz = dz / d
                      in (fst v + nx * gain, snd v + nz * gain))
                else v)
      in (fst v1 * (0.86 powr (dt * 60)), snd v1 * (0.86 powr (dt * 60))))"

definition wanderSteer :: "brain_state \<Rightarrow> vec2 \<Rightarrow> move_params \<Rightarrow> vec2" where
  "wanderSteer brain pos ps =
     (let nx = noise1D (mp_time ps * 0.55) (b_seed brain);
          nz = noise1D (mp_time ps * 0.55 + 100) (b_seed brain);
          bnd = mp_bounds ps;
          margin = 1.25;
          dirX0 = nx;
          dirZ0 = nz;
          dirX1 = (if fst pos > maxX bnd - margin
                   then dirX0 - (fst pos - (maxX bnd - margin)) / margin else dirX0);
          dirX2 = (if fst pos < minX bnd + margin
                   then dirX1 + ((minX bnd + margin) - fst pos) / margin else dirX1);
          dirZ1 = (if snd pos > maxZ bnd - margin
                   then dirZ0 - (snd pos - (maxZ bnd - margin)) / margin else dirZ0);
          dirZ2 = (if snd pos < minZ bnd + margin
                   then dirZ1 + ((minZ bnd + margin) - snd pos) / margin else dirZ1);
          dirX3 = (case mp_separationVec ps of None \<Rightarrow> dirX2 | Some sv \<Rightarrow> dirX2 + fst sv);
          dirZ3 = (case mp_separationVec ps of None \<Rightarrow> dirZ2 | Some sv \<Rightarrow> dirZ2 + snd sv);
          l = sqrt (dirX3 * dirX3 + dirZ3 * dirZ3)
      in if l > 0.001 then (dirX3 / l, dirZ3 / l) else (dirX3, dirZ3))"

definition calculateMovement :: "brain_state \<Rightarrow> vec2 \<Rightarrow> vec2 \<Rightarrow> move_params \<Rightarrow> vec2" where
  "calculateMovement brain pos vel ps =
     (let dt = mp_dt ps; vx = fst vel; vz = snd vel
      in if b_mode brain = Socializing
         then (vx * (0.72 powr (dt * 60)), vz * (0.72 powr (dt * 60)))
         else if b_mode brain = Curious
         then (vx * (0.70 powr (dt * 60)), vz * (0.70 powr (dt * 60)))
         else if b_mode brain = Resting \<or> b_mode brain = Sleeping
         then (let dx = fst (b_restSpot brain) - fst pos;
                   dz = snd (snd (b_restSpot brain)) - snd pos;
                   d = sqrt (dx * dx + dz * dz)
               in if d > 0.20
                  then (let nx = dx / d; nz = dz / d
                        in (vx + nx * dt * 2.2, vz + nz * dt * 2.2))
                  else (vx * (0.70 powr (dt * 60)), vz * (0.70 powr (dt * 60))))
         else if b_mode brain = Following
         then seek vel (fst (mp_playerPos ps) - fst pos, snd (mp_playerPos ps) - snd pos)
                ((if mp_isMobile ps then 1.55 else 1.75) * dt * 3.2) dt
         else if b_mode brain = Chasing \<and> mp_chaseMode ps \<noteq> None
         then (let rp = c_runnerPos (the (mp_chaseMode ps))
               in seek vel (fst rp - fst pos, snd (snd rp) - snd pos) (2.05 * dt * 3.0) dt)
         else if b_mode brain = Running \<and> mp_chaseMode ps \<noteq> None
         then (let cp = c_chaserPos (the (mp_chaseMode ps))
               in seek vel (fst pos - fst cp, snd pos - snd (snd cp)) (2.1 * dt * 3.0) dt)
         else (let dir = wanderSteer brain pos ps;
                   speed = 1.25;
                   vx1 = vx + fst dir * speed * dt * 2.6;
                   vz1 = vz + snd dir * speed * dt * 2.6
               in (vx1 * (0.88 powr (dt * 60)), vz1 * (0.88 powr (dt * 60)))))"

definition calculateYaw :: "vec2 \<Rightarrow> real \<Rightarrow> real \<Rightarrow> real" where
  "calculateYaw vel currentYaw dampingFactor =
     dampAngle currentYaw (atan2 (fst vel) (snd vel)) dampingFactor"

section \<open>Social proxemics (pets-core/ai/social.js)\<close>

text \<open>\<open>SOCIAL_CONFIG\<close>.\<close>

definition social_distance :: real where "social_distance = 2.0"
definition cooldownS :: real where "cooldownS = 10"
definition checkEveryFrames :: nat where "checkEveryFrames = 30"
definition greetDuration :: vec2 where "greetDuration = (1.05, 1.5)"

record social_state =
  s_active :: bool
  s_until :: real
  s_partnerId :: "string option"
  s_partnerPos :: vec3
  s_facePartnerYaw :: real

definition createSocialState :: social_state where
  "createSocialState =
     \<lparr> s_active = False, s_until = 0, s_partnerId = None, s_partnerPos = (0, 0, 0),
       s_facePartnerYaw = 0 \<rparr>"

definition createChaseMode :: chase_mode where
  "createChaseMode =
     \<lparr> c_active = False, c_until = 0, c_chaserId = None, c_runnerId = None,
       c_runnerPos = (0, 0, 0), c_chaserPos = (0, 0, 0) \<rparr>"

text \<open>Returns the updated state and whether the interaction has just ended.\<close>

definition updateSocialState :: "social_state \<Rightarrow> real \<Rightarrow> social_state \<times> bool" where
  "updateSocialState social time =
     (if s_active social \<and> time > s_until social
      then (social\<lparr>s_active := False, s_partnerId := None\<rparr>, True)
      else (social, False))"

text \<open>\<open>r\<close> is the draw made by \<open>randRange\<close>.\<close>

definition startSocialInteraction ::
  "social_state \<Rightarrow> social_state \<Rightarrow> vec2 \<Rightarrow> vec2 \<Rightarrow> string \<Rightarrow> string \<Rightarrow> real \<Rightarrow> real \<Rightarrow> real
     \<Rightarrow> social_state \<times> social_state" where
  "startSocialInteraction socialA socialB posA posB idA idB time baseY r =
     (let duration = randRange (fst greetDuration) (snd greetDuration) r;
          until = time + duration
      in (socialA\<lparr> s_active := True, s_until := until, s_partnerId := Some idB,
                   s_partnerPos := (fst posB, baseY, snd posB),
                   s_facePartnerYaw := atan2 (fst posB - fst posA) (snd posB - snd posA) \<rparr>,
          socialB\<lparr> s_active := True, s_until := until, s_partnerId := Some idA,
                   s_partnerPos := (fst posA, baseY, snd posA),
                   s_facePartnerYaw := atan2 (fst posA - fst posB) (snd posA - snd posB) \<rparr>))"

text \<open>A roster entry: the pet data kept in React state and in local storage.\<close>

record pet =
  pet_id :: string
  pet_speciesKey :: string
  pet_position :: vec2
  pet_yaw :: real
  pet_seed :: real

text \<open>The loop \<open>while (b.id === a.id && guard++ < 6) b = pick(pets)\<close>: the counter is
  incremented only when the ids are equal, and a pick that reads \<open>undefined\<close> makes the next
  test throw.\<close>

function chaseRetry :: "pet list \<Rightarrow> string \<Rightarrow> pet \<Rightarrow> nat \<Rightarrow> rng \<Rightarrow> error + pet \<times> rng" where
  "chaseRetry pets aid b guard g =
     (if pet_id b = aid \<and> guard < 6
      then (case pick pets (shd g) of
              None \<Rightarrow> Inl TypeError
            | Some b' \<Rightarrow> chaseRetry pets aid b' (Suc guard) (stl g))
      else Inr (b, g))"
  by pat_completeness auto
termination
  by (relation "measure (\<lambda>(pets, aid, b, guard, g). 6 - guard)") auto

text \<open>The two first picks of a chase start, then the retry loop.\<close>

definition drawPair :: "pet list \<Rightarrow> rng \<Rightarrow> error + pet \<times> pet \<times> rng" where
  "drawPair pets g =
     (case pick pets (shd g) of
        None \<Rightarrow> Inl TypeError
      | Some a \<Rightarrow>
          (case pick pets (shd (stl g)) of
             None \<Rightarrow> Inl TypeError
           | Some b \<Rightarrow>
               (case chaseRetry pets (pet_id a) b 0 (stl (stl g)) of
                  Inl e \<Rightarrow> Inl e
                | Inr (b', g') \<Rightarrow> Inr (a, b', g'))))"

definition maybeStartChase ::
  "chase_mode \<Rightarrow> pet list \<Rightarrow> real \<Rightarrow> rng \<Rightarrow> error + bool \<times> chase_mode \<times> rng" where
  "maybeStartChase chaseMode pets time g =
     (if c_active chaseMode then Inr (False, chaseMode, g)
      else if length pets < 2 then Inr (False, chaseMode, g)
      else if shd g \<ge> chaseChancePerS * (1 / 60) then Inr (False, chaseMode, stl g)
      else (case drawPair pets (stl g) of
              Inl e \<Rightarrow> Inl e
            | Inr (a, b, g') \<Rightarrow>
                if pet_id b = pet_id a then Inr (False, chaseMode, g')
                else Inr (True,
                          chaseMode\<lparr> c_active := True, c_chaserId := Some (pet_id a),
                                      c_runnerId := Some (pet_id b),
                                      c_until := time + randRange (fst chaseDuration)
                                                          (snd chaseDuration) (shd g') \<rparr>,
                          stl g')))"

text \<open>A pose of the per-tick snapshot; the snapshot is a JavaScript \<open>Map\<close>, here an association
  list in insertion order with \<open>AList.update\<close> for \<open>set\<close> and \<open>map_of\<close> for \<open>get\<close>.\<close>

record pose =
  p_x :: real
  p_z :: real
  p_yaw :: real
  p_mode :: mode
  p_speciesKey :: string

type_synonym posMap = "(string \<times> pose) list"

definition updateChaseMode :: "chase_mode \<Rightarrow> posMap \<Rightarrow> real \<Rightarrow> real \<Rightarrow> chase_mode" where
  "updateChaseMode chaseMode pm time baseY =
     (if \<not> c_active chaseMode then chaseMode
      else (let chaserPos = (case c_chaserId chaseMode of None \<Rightarrow> None | Some i \<Rightarrow> map_of pm i);
                runnerPos = (case c_runnerId chaseMode of None \<Rightarrow> None | Some i \<Rightarrow> map_of pm i);
                c1 = (case chaserPos of None \<Rightarrow> chaseMode
                      | Some p \<Rightarrow> chaseMode\<lparr>c_chaserPos := (p_x p, baseY, p_z p)\<rparr>);
                c2 = (case runnerPos of None \<Rightarrow> c1
                      | Some p \<Rightarrow> c1\<lparr>c_runnerPos := (p_x p, baseY, p_z p)\<rparr>)
            in if time > c_until c2
               then c2\<lparr>c_active := False, c_chaserId := None, c_runnerId := None\<rparr>
               else c2))"

text \<open>One iteration of the loop of \<open>calculateSeparation\<close>, then the loop.\<close>

definition separationStep :: "vec2 \<Rightarrow> string \<Rightarrow> real \<Rightarrow> vec2 \<Rightarrow> string \<times> pose \<Rightarrow> vec2" where
  "separationStep pos selfId radius sep entry =
     (if fst entry = selfId then sep
      else (let ox = fst pos - p_x (snd entry);
                oz = snd pos - p_z (snd entry);
                d2 = ox * ox + oz * oz
            in if d2 < radius * radius \<and> d2 > 0.0001
               then (let d = sqrt d2; inv = 1 / d; push = (1.0 - d / radius) * 0.018
                     in (fst sep + ox * inv * push, snd sep + oz * inv * push))
               else sep))"

definition calculateSeparation :: "vec2 \<Rightarrow> posMap \<Rightarrow> string \<Rightarrow> real \<Rightarrow> vec2" where
  "calculateSeparation pos pm selfId radius = foldl (separationStep pos selfId radius) (0, 0) pm"

definition calculatePlayerSeparation :: "vec2 \<Rightarrow> vec2 \<Rightarrow> real \<Rightarrow> vec2" where
  "calculatePlayerSeparation petPos playerPos radius =
     (let ox = fst petPos - fst playerPos;
          oz = snd petPos - snd playerPos;
          d2 = ox * ox + oz * oz
      in if d2 < radius * radius \<and> d2 > 0.0001
         then (let d = sqrt d2; inv = 1 / d in (ox * inv * 0.022, oz * inv * 0.022))
         else (0, 0))"

definition isWithinSocialDistance :: "vec2 \<Rightarrow> vec2 \<Rightarrow> bool" where
  "isWithinSocialDistance posA posB =
     (let dx = fst posA - fst posB; dz = snd posA - snd posB; d2 = dx * dx + dz * dz
      in d2 < social_distance * social_distance)"

text \<open>The key of an unordered pair: the two ids in string order around a bar.\<close>

definition getPairKey :: "string \<Rightarrow> string \<Rightarrow> string" where
  "getPairKey idA idB = (if idA < idB then idA @ ''|'' @ idB else idB @ ''|'' @ idA)"

section \<open>The pet component (pets-core/components/Pet.jsx)\<close>

definition BASE_Y :: real where "BASE_Y = 0.55"

record petting =
  pt_lastX :: real
  pt_lastDir :: int
  pt_flips :: nat
  pt_love :: real
  pt_emitT :: real

text \<open>The mutable refs of one mounted pet. Rendering state (springs, eye shader, head, tail and
  ear transforms) is left out: nothing of the simulation reads it.\<close>

record pet_state =
  ps_pos :: vec3
  ps_vel :: vec3
  ps_yaw :: real
  ps_held :: bool
  ps_petting :: petting
  ps_brain :: brain_state
  ps_social :: social_state

text \<open>The props of the component that the simulation reads: the roster entry, the \<open>hover\<close> flag
  of its species, the world bounds, the rest spots and the device class.\<close>

record pet_props =
  pp_pet :: pet
  pp_hover :: bool
  pp_bounds :: bounds
  pp_rugs :: "vec2 list"
  pp_isMobile :: bool

definition hoverBaseY :: "pet_props \<Rightarrow> real" where
  "hoverBaseY pp = (if pp_hover pp then 1.50 else BASE_Y)"

definition initPetState :: "pet_props \<Rightarrow> pet_state" where
  "initPetState pp =
     \<lparr> ps_pos = (fst (pet_position (pp_pet pp)), hoverBaseY pp, snd (pet_position (pp_pet pp))),
       ps_vel = (0, 0, 0),
       ps_yaw = pet_yaw (pp_pet pp),
       ps_held = False,
       ps_petting = \<lparr> pt_lastX = 0, pt_lastDir = 0, pt_flips = 0, pt_love = 0, pt_emitT = 0 \<rparr>,
       ps_brain = createBrainState (pet_seed (pp_pet pp)),
       ps_social = createSocialState \<rparr>"

subsection \<open>The API registered with the manager\<close>

definition getPose :: "pet \<Rightarrow> pet_state \<Rightarrow> pose" where
  "getPose p st =
     \<lparr> p_x = fst (ps_pos st), p_z = snd (snd (ps_pos st)), p_yaw = ps_yaw st,
       p_mode = b_mode (ps_brain st), p_speciesKey = pet_speciesKey p \<rparr>"

definition setSocial ::
  "pet_state \<Rightarrow> bool \<Rightarrow> real \<Rightarrow> string option \<Rightarrow> vec3 option \<Rightarrow> pet_state" where
  "setSocial st active until partnerId partnerPos =
     (let so = (ps_social st)\<lparr> s_active := active, s_until := until, s_partnerId := partnerId \<rparr>
      in case partnerPos of
           None \<Rightarrow> st\<lparr>ps_social := so\<rparr>
         | Some pp \<Rightarrow>
             (let dx = fst pp - fst (ps_pos st);
                  dz = snd (snd pp) - snd (snd (ps_pos st))
              in st\<lparr>ps_social := so\<lparr> s_partnerPos := pp, s_facePartnerYaw := atan2 dx dz \<rparr>\<rparr>))"

text \<open>\<open>r\<close> is the draw of \<open>Math.random()\<close>.\<close>

definition nudgeToSleepSpot :: "pet_state \<Rightarrow> vec3 \<Rightarrow> real \<Rightarrow> pet_state" where
  "nudgeToSleepSpot st spot r =
     st\<lparr>ps_brain := (ps_brain st)\<lparr> b_mode := Sleeping, b_t := lerp 3.0 6.0 r, b_restSpot := spot \<rparr>\<rparr>"

subsection \<open>Gestures\<close>







text \<open>Petting detection: \<open>localX\<close> is the pointer's x on the hit mesh.\<close>

definition onPetMove :: "pet_state \<Rightarrow> real \<Rightarrow> real \<Rightarrow> pet_state" where
  "onPetMove st localX now =
     (if ps_held st then st
      else (let pt = ps_petting st;
                dx = localX - pt_lastX pt;
                pt1 = pt\<lparr>pt_lastX := localX\<rparr>;
                dir = (if dx > 0.003 then 1 else if dx < - 0.003 then - 1 else (0::int));
                pt2 = (if dir \<noteq> 0 \<and> pt_lastDir pt1 \<noteq> 0 \<and> dir \<noteq> pt_lastDir pt1
                       then pt1\<lparr>pt_flips := pt_flips pt1 + 1\<rparr> else pt1);
                pt3 = (if dir \<noteq> 0 then pt2\<lparr>pt_lastDir := dir\<rparr> else pt2)
            in if pt_flips pt3 \<ge> 3
               then st\<lparr> ps_petting := pt3\<lparr> pt_flips := 0,
                                              pt_love := clamp (pt_love pt3 + 0.22) 0 1 \<rparr>,
                         ps_brain := (ps_brain st)\<lparr>b_lastInteractAt := now\<rparr> \<rparr>
               else st\<lparr>ps_petting := pt3\<rparr>))"

subsection \<open>The per-frame update\<close>

record frame_in =
  f_time :: real
  f_dt :: real
  f_camera :: vec3
  f_now :: real

text \<open>"Update social state".\<close>

definition socialPhase :: "pet_state \<Rightarrow> real \<Rightarrow> pet_state" where
  "socialPhase st time =
     (let res = updateSocialState (ps_social st) time;
          st1 = st\<lparr>ps_social := fst res\<rparr>
      in if snd res
         then (if \<not> ps_held st1 \<and> b_mode (ps_brain st1) = Socializing
               then st1\<lparr>ps_brain := (ps_brain st1)\<lparr>b_mode := Wandering\<rparr>\<rparr> else st1)
         else st1)"

text \<open>"Love decay", with the timer of the heart pulses; a pulse redraws the timer.\<close>

definition lovePhase :: "pet_state \<Rightarrow> real \<Rightarrow> rng \<Rightarrow> pet_state \<times> rng" where
  "lovePhase st dt g =
     (let pt = ps_petting st;
          pt1 = pt\<lparr>pt_love := max 0 (pt_love pt - dt * 0.55)\<rparr>
      in if pt_love pt1 > 0.2
         then (let pt2 = pt1\<lparr>pt_emitT := pt_emitT pt1 - dt\<rparr>
               in if pt_emitT pt2 \<le> 0
                  then (st\<lparr>ps_petting := pt2\<lparr>pt_emitT := lerp 0.14 0.22 (shd g)\<rparr>\<rparr>, stl g)
                  else (st\<lparr>ps_petting := pt2\<rparr>, g))
         else (st\<lparr>ps_petting := pt1\<rparr>, g))"

text \<open>"Chase mode".\<close>

definition chasePhase :: "pet_props \<Rightarrow> pet_state \<Rightarrow> chase_mode option \<Rightarrow> real \<Rightarrow> pet_state" where
  "chasePhase pp st chase time =
     (if \<not> ps_held st \<and> chaseActive chase
      then (let ch = the chase; B = ps_brain st
            in if c_chaserId ch = Some (pet_id (pp_pet pp))
               then st\<lparr>ps_brain := B\<lparr> b_mode := Chasing, b_t := c_until ch - time,
                                         b_restSpot := (fst (c_runnerPos ch), hoverBaseY pp,
                                                        snd (snd (c_runnerPos ch))) \<rparr>\<rparr>
               else if c_runnerId ch = Some (pet_id (pp_pet pp))
               then st\<lparr>ps_brain := B\<lparr> b_mode := Running, b_t := c_until ch - time \<rparr>\<rparr>
               else st)
      else st)"

text \<open>"Integrate position": explicit Euler at \<open>dt * 60\<close>, then the clamp to the bounds and the
  height.\<close>

definition integrate :: "pet_props \<Rightarrow> pet_state \<Rightarrow> frame_in \<Rightarrow> pet_state" where
  "integrate pp st fi =
     (let x1 = fst (ps_pos st) + fst (ps_vel st) * f_dt fi * 60;
          z1 = snd (snd (ps_pos st)) + snd (snd (ps_vel st)) * f_dt fi * 60;
          x2 = clamp x1 (minX (pp_bounds pp)) (maxX (pp_bounds pp));
          z2 = clamp z1 (minZ (pp_bounds pp)) (maxZ (pp_bounds pp));
          y2 = (if pp_hover pp
                then hoverBaseY pp + sin (f_time fi * 1.15 + pet_seed (pp_pet pp)) * 0.12
                else hoverBaseY pp)
      in st\<lparr>ps_pos := (x2, y2, z2)\<rparr>)"

text \<open>"Calculate yaw based on mode".\<close>

definition yawPhase :: "pet_state \<Rightarrow> real \<Rightarrow> real \<Rightarrow> pet_state" where
  "yawPhase st dxp dzp =
     (let v = ps_vel st
      in if b_mode (ps_brain st) = Socializing
         then st\<lparr>ps_yaw := dampAngle (ps_yaw st) (s_facePartnerYaw (ps_social st)) 0.14\<rparr>
         else if b_mode (ps_brain st) = Curious
         then st\<lparr>ps_yaw := dampAngle (ps_yaw st) (atan2 dxp dzp) 0.12\<rparr>
         else if fst v * fst v + snd (snd v) * snd (snd v) > 0.0001
         then st\<lparr>ps_yaw := calculateYaw (fst v, snd (snd v)) (ps_yaw st) 0.09\<rparr>
         else st)"

text \<open>The part of the frame after the early return of a held pet: brain, separation, movement,
  integration, yaw.\<close>

definition aiPhase ::
  "pet_props \<Rightarrow> pet_state \<Rightarrow> frame_in \<Rightarrow> chase_mode option \<Rightarrow> posMap option \<Rightarrow> rng
     \<Rightarrow> error + pet_state \<times> rng" where
  "aiPhase pp st fi chase pm g =
     (let px = fst (ps_pos st); pz = snd (snd (ps_pos st));
          dxp = fst (f_camera fi) - px;
          dzp = snd (snd (f_camera fi)) - pz;
          dPlayer2 = dxp * dxp + dzp * dzp
      in case updateBrain (ps_brain st)
                \<lparr> bp_dt = f_dt fi, bp_time = f_time fi, bp_isHeld = ps_held st,
                  bp_socialActive = s_active (ps_social st), bp_playerDist2 = dPlayer2,
                  bp_chaseMode = chase, bp_petId = pet_id (pp_pet pp), bp_rugs = pp_rugs pp \<rparr>
                (f_now fi) g of
           Inl e \<Rightarrow> Inl e
         | Inr (B1, g1) \<Rightarrow>
             (let B2 = (if s_active (ps_social st) then B1\<lparr>b_mode := Socializing\<rparr> else B1);
                  sep0 = (case pm of None \<Rightarrow> (0, 0)
                          | Some m \<Rightarrow> calculateSeparation (px, pz) m (pet_id (pp_pet pp)) 2.2);
                  playerSep = calculatePlayerSeparation (px, pz)
                                (fst (f_camera fi), snd (snd (f_camera fi))) 1.6;
                  sep = (fst sep0 + fst playerSep, snd sep0 + snd playerSep);
                  newVel = calculateMovement B2 (px, pz)
                             (fst (ps_vel st), snd (snd (ps_vel st)))
                             \<lparr> mp_dt = f_dt fi, mp_time = f_time fi, mp_bounds = pp_bounds pp,
                               mp_playerPos = (fst (f_camera fi), snd (snd (f_camera fi))),
                               mp_chaseMode = chase, mp_separationVec = Some sep,
                               mp_isMobile = pp_isMobile pp, mp_baseY = BASE_Y \<rparr>;
                  st1 = st\<lparr> ps_brain := B2,
                            ps_vel := (fst newVel, fst (snd (ps_vel st)), snd newVel) \<rparr>;
                  st2 = integrate pp st1 fi
              in Inr (yawPhase st2 dxp dzp, g1)))"

definition petFrame ::
  "pet_props \<Rightarrow> pet_state \<Rightarrow> frame_in \<Rightarrow> chase_mode option \<Rightarrow> posMap option \<Rightarrow> rng
     \<Rightarrow> error + pet_state \<times> rng" where
  "petFrame pp st fi chase pm g =
     (let st1 = socialPhase st (f_time fi);
          r = lovePhase st1 (f_dt fi) g;
          st3 = chasePhase pp (fst r) chase (f_time fi)
      in if ps_held st3 then Inr (st3, snd r)
         else aiPhase pp st3 fi chase pm (snd r))"

section \<open>The roster (pets-core/context/PetContext.jsx and GardenPets.jsx)\<close>


record 'a ctx_pet =
  cp_id :: string
  cp_payload :: 'a
  cp_bondLevel :: real
  cp_happiness :: real
  cp_activityHistory :: "string list"
  cp_assignedMemoryId :: "string option"
  cp_createdAt :: real

datatype 'a pet_event = PET_SPAWNED string "'a ctx_pet" | PET_REMOVED string

text \<open>The provider keeps the roster in React state and mirrors it into \<open>petsRef\<close> after each
  render; \<open>addPet\<close> tests the mirror and appends to the state.\<close>

record 'a ctx =
  ctx_pets :: "'a ctx_pet list"
  ctx_petsRef :: "'a ctx_pet list"
  ctx_events :: "'a pet_event list"

definition syncPetsRef :: "'a ctx \<Rightarrow> 'a ctx" where
  "syncPetsRef c = c\<lparr>ctx_petsRef := ctx_pets c\<rparr>"




section \<open>The manager (PetManager of GardenPets.jsx)\<close>

definition SOCIAL_DISTANCE :: real where "SOCIAL_DISTANCE = 2.0"
definition SOCIAL_COOLDOWN_S :: real where "SOCIAL_COOLDOWN_S = 10"
definition SOCIAL_CHECK_EVERY_FRAMES :: nat where "SOCIAL_CHECK_EVERY_FRAMES = 30"

text \<open>The refs of the manager together with the pets it reaches through \<open>apiRef\<close>: the roster,
  the state of every mounted pet under its id, the snapshot, the chase episode, the pair
  cooldowns, the frame counter and the last sleep spot. \<open>w_greets\<close> records each greeting the
  manager performs (the two \<open>greet()\<close> calls and the hearts emitted between the pair) as the
  two ids and the time.\<close>

record world =
  w_pets :: "pet list"
  w_api :: "string \<rightharpoonup> pet_state"
  w_posMap :: posMap
  w_chaseMode :: chase_mode
  w_pairCooldown :: "string \<rightharpoonup> real"
  w_frameCounter :: nat
  w_lastSleepSpot :: "vec2 option"
  w_greets :: "(string \<times> string \<times> real) list"

text \<open>"Snapshot poses".\<close>

definition snapshotStep :: "(string \<rightharpoonup> pet_state) \<Rightarrow> posMap \<Rightarrow> pet \<Rightarrow> posMap" where
  "snapshotStep api pm p =
     (case api (pet_id p) of
        None \<Rightarrow> pm
      | Some st \<Rightarrow> AList.update (pet_id p) (getPose p st) pm)"

definition snapshot :: "world \<Rightarrow> posMap" where
  "snapshot w = foldl (snapshotStep (w_api w)) [] (w_pets w)"

text \<open>"Start a chase burst": unlike \<open>maybeStartChase\<close>, the episode is started with whatever the
  retry loop leaves in \<open>b\<close>.\<close>

definition startChaseBurst :: "chase_mode \<Rightarrow> pet list \<Rightarrow> real \<Rightarrow> rng \<Rightarrow> error + chase_mode \<times> rng" where
  "startChaseBurst ch arr time g =
     (if length arr \<ge> 2
      then (if shd g < chaseChancePerS * (1 / 60)
            then (case drawPair arr (stl g) of
                    Inl e \<Rightarrow> Inl e
                  | Inr (a, b, g') \<Rightarrow>
                      Inr (ch\<lparr> c_active := True, c_chaserId := Some (pet_id a),
                               c_runnerId := Some (pet_id b),
                               c_until := time + randRange (fst chaseDuration)
                                                   (snd chaseDuration) (shd g') \<rparr>,
                           stl g'))
            else Inr (ch, stl g))
      else Inr (ch, g))"

text \<open>"Update chase positions", whose statements are those of \<open>updateChaseMode\<close>, or else the
  start of a chase.\<close>

definition chaseArbitration :: "world \<Rightarrow> real \<Rightarrow> rng \<Rightarrow> error + world \<times> rng" where
  "chaseArbitration w time g =
     (if c_active (w_chaseMode w)
      then Inr (w\<lparr>w_chaseMode := updateChaseMode (w_chaseMode w) (w_posMap w) time BASE_Y\<rparr>, g)
      else (case startChaseBurst (w_chaseMode w) (w_pets w) time g of
              Inl e \<Rightarrow> Inl e
            | Inr (ch, g') \<Rightarrow> Inr (w\<lparr>w_chaseMode := ch\<rparr>, g')))"

text \<open>"Ignore if chasing".\<close>

definition chaseInvolved :: "chase_mode \<Rightarrow> string \<Rightarrow> string \<Rightarrow> bool" where
  "chaseInvolved ch ida idb =
     (c_active ch \<and>
      (Some ida = c_chaserId ch \<or> Some ida = c_runnerId ch \<or>
       Some idb = c_chaserId ch \<or> Some idb = c_runnerId ch))"

definition callNudge :: "world \<Rightarrow> string \<Rightarrow> vec3 \<Rightarrow> real \<Rightarrow> world" where
  "callNudge w i spot r =
     (case w_api w i of
        None \<Rightarrow> w
      | Some st \<Rightarrow> w\<lparr>w_api := (w_api w)(i \<mapsto> nudgeToSleepSpot st spot r)\<rparr>)"

text \<open>"Cuddle pile bias". The spot is the last sleep spot or else a picked rug; it is read
  (\<open>spot[0]\<close>) only when one of the two nudges is made.\<close>

definition cuddlePile ::
  "vec2 list \<Rightarrow> pet \<Rightarrow> pet \<Rightarrow> pose \<Rightarrow> pose \<Rightarrow> world \<Rightarrow> rng \<Rightarrow> error + world \<times> rng" where
  "cuddlePile rugs a b pa pb w g =
     (if p_mode pa = Sleeping \<or> p_mode pb = Sleeping
      then (if shd g < 0.35
            then (let g1 = stl g;
                      spot = (case w_lastSleepSpot w of Some sp \<Rightarrow> Some sp
                              | None \<Rightarrow> pick rugs (shd g1));
                      g2 = (case w_lastSleepSpot w of Some sp \<Rightarrow> g1 | None \<Rightarrow> stl g1);
                      w1 = w\<lparr>w_lastSleepSpot := spot\<rparr>
                  in if p_mode pa = Sleeping \<and> p_mode pb \<noteq> Sleeping
                     then (case spot of
                             None \<Rightarrow> Inl TypeError
                           | Some sp \<Rightarrow>
                               Inr (callNudge w1 (pet_id b) (fst sp, BASE_Y, snd sp) (shd g2),
                                    stl g2))
                     else if p_mode pb = Sleeping \<and> p_mode pa \<noteq> Sleeping
                     then (case spot of
                             None \<Rightarrow> Inl TypeError
                           | Some sp \<Rightarrow>
                               Inr (callNudge w1 (pet_id a) (fst sp, BASE_Y, snd sp) (shd g2),
                                    stl g2))
                     else Inr (w1, g2))
            else Inr (w, stl g))
      else Inr (w, g))"

definition callSetSocial :: "world \<Rightarrow> string \<Rightarrow> real \<Rightarrow> string \<Rightarrow> vec3 \<Rightarrow> world" where
  "callSetSocial w i until partner partnerPos =
     (case w_api w i of
        None \<Rightarrow> w
      | Some st \<Rightarrow>
          w\<lparr>w_api := (w_api w)(i \<mapsto> setSocial st True until (Some partner) (Some partnerPos))\<rparr>)"

text \<open>The body of the branch \<open>d2 < SOCIAL_DISTANCE * SOCIAL_DISTANCE\<close>.\<close>

definition greet ::
  "vec2 list \<Rightarrow> real \<Rightarrow> pet \<Rightarrow> pet \<Rightarrow> pose \<Rightarrow> pose \<Rightarrow> world \<Rightarrow> rng \<Rightarrow> error + world \<times> rng" where
  "greet rugs time a b pa pb w g =
     (let key = getPairKey (pet_id a) (pet_id b);
          w1 = w\<lparr>w_pairCooldown := (w_pairCooldown w)(key \<mapsto> time + SOCIAL_COOLDOWN_S)\<rparr>;
          duration = 1.05 + shd g * 0.45;
          untilT = time + duration;
          w2 = callSetSocial w1 (pet_id a) untilT (pet_id b) (p_x pb, BASE_Y, p_z pb);
          w3 = callSetSocial w2 (pet_id b) untilT (pet_id a) (p_x pa, BASE_Y, p_z pa);
          w4 = w3\<lparr>w_greets := w_greets w3 @ [(pet_id a, pet_id b, time)]\<rparr>
      in cuddlePile rugs a b pa pb w4 (stl g))"

text \<open>One iteration of the inner loop of the proximity scan, for the roster entries \<open>a = arr[i]\<close>
  and \<open>b = arr[j]\<close>.\<close>

definition greetPair :: "vec2 list \<Rightarrow> real \<Rightarrow> pet \<Rightarrow> pet \<Rightarrow> world \<Rightarrow> rng \<Rightarrow> error + world \<times> rng" where
  "greetPair rugs time a b w g =
     (if w_api w (pet_id a) = None \<or> w_api w (pet_id b) = None then Inr (w, g)
      else (case map_of (w_posMap w) (pet_id a) of
              None \<Rightarrow> Inr (w, g)
            | Some pa \<Rightarrow>
                (case map_of (w_posMap w) (pet_id b) of
                   None \<Rightarrow> Inr (w, g)
                 | Some pb \<Rightarrow>
                     if chaseInvolved (w_chaseMode w) (pet_id a) (pet_id b) then Inr (w, g)
                     else (let key = getPairKey (pet_id a) (pet_id b);
                               until = (case w_pairCooldown w key of None \<Rightarrow> 0 | Some u \<Rightarrow> u)
                           in if time < until then Inr (w, g)
                              else (let dx = p_x pa - p_x pb;
                                        dz = p_z pa - p_z pb;
                                        d2 = dx * dx + dz * dz
                                    in if d2 < SOCIAL_DISTANCE * SOCIAL_DISTANCE
                                       then greet rugs time a b pa pb w g
                                       else Inr (w, g))))))"

text \<open>The loops \<open>for i\<close> and \<open>for j = i + 1\<close> over the roster.\<close>

fun scanInner :: "vec2 list \<Rightarrow> real \<Rightarrow> pet \<Rightarrow> pet list \<Rightarrow> world \<Rightarrow> rng \<Rightarrow> error + world \<times> rng" where
  "scanInner rugs time a [] w g = Inr (w, g)"
| "scanInner rugs time a (b # bs) w g =
     (case greetPair rugs time a b w g of
        Inl e \<Rightarrow> Inl e
      | Inr (w', g') \<Rightarrow> scanInner rugs time a bs w' g')"

fun scanOuter :: "vec2 list \<Rightarrow> real \<Rightarrow> pet list \<Rightarrow> world \<Rightarrow> rng \<Rightarrow> error + world \<times> rng" where
  "scanOuter rugs time [] w g = Inr (w, g)"
| "scanOuter rugs time (a # rest) w g =
     (case scanInner rugs time a rest w g of
        Inl e \<Rightarrow> Inl e
      | Inr (w', g') \<Rightarrow> scanOuter rugs time rest w' g')"

text \<open>The frame callback of the manager at clock time \<open>time\<close>.\<close>

definition managerFrame :: "vec2 list \<Rightarrow> real \<Rightarrow> world \<Rightarrow> rng \<Rightarrow> error + world \<times> rng" where
  "managerFrame rugs time w g =
     (let w1 = w\<lparr>w_frameCounter := w_frameCounter w + 1\<rparr>;
          w2 = w1\<lparr>w_posMap := snapshot w1\<rparr>
      in case chaseArbitration w2 time g of
           Inl e \<Rightarrow> Inl e
         | Inr (w3, g3) \<Rightarrow>
             if w_frameCounter w3 mod SOCIAL_CHECK_EVERY_FRAMES \<noteq> 0 then Inr (w3, g3)
             else if length (w_pets w3) < 2 then Inr (w3, g3)
             else scanOuter rugs time (w_pets w3) w3 g3)"

section \<open>Runs, example rosters and the predicates of the properties\<close>


fun petFrames ::
  "pet_props \<Rightarrow> pet_state \<Rightarrow> (frame_in \<times> chase_mode option \<times> posMap option) list \<Rightarrow> rng
     \<Rightarrow> error + pet_state \<times> rng" where
  "petFrames pp st [] g = Inr (st, g)"
| "petFrames pp st (i # ins) g =
     (case petFrame pp st (fst i) (fst (snd i)) (snd (snd i)) g of
        Inl e \<Rightarrow> Inl e
      | Inr (st1, g1) \<Rightarrow> petFrames pp st1 ins g1)"

text \<open>\<open>ROOM_BOUNDS\<close> and the rest spots of the garden scene; a roster entry with a given id and
  position; the props the scene passes to its pet; the first default pet.\<close>

definition ROOM_BOUNDS :: bounds where
  "ROOM_BOUNDS = \<lparr> minX = - 9.5, maxX = 9.5, minZ = - 9.5, maxZ = 9.5 \<rparr>"

definition gardenRugs :: "vec2 list" where
  "gardenRugs = [(- 3.5, - 3.5), (3.5, - 3.5), (- 3.5, 3.5), (3.5, 3.5), (0, 0)]"

definition mkPet :: "string \<Rightarrow> vec2 \<Rightarrow> pet" where
  "mkPet i pos =
     \<lparr> pet_id = i, pet_speciesKey = ''cat'', pet_position = pos, pet_yaw = 0, pet_seed = 1 \<rparr>"

definition petProps :: "pet \<Rightarrow> pet_props" where
  "petProps p =
     \<lparr> pp_pet = p, pp_hover = False, pp_bounds = ROOM_BOUNDS, pp_rugs = gardenRugs,
       pp_isMobile = False \<rparr>"

definition pet_a_props :: pet_props where
  "pet_a_props = petProps (mkPet ''pet_a'' (- 2.0, 0.5))"

text \<open>The manager's refs once every pet of the roster \<open>ps\<close> is mounted, with the frame
  counter at \<open>n\<close>: no episode, no cooldown, no greeting yet.\<close>

definition mountedWorld :: "pet list \<Rightarrow> nat \<Rightarrow> world" where
  "mountedWorld ps n =
     \<lparr> w_pets = ps,
       w_api = map_of (map (\<lambda>p. (pet_id p, initPetState (petProps p))) ps),
       w_posMap = [], w_chaseMode = createChaseMode, w_pairCooldown = Map.empty,
       w_frameCounter = n, w_lastSleepSpot = None, w_greets = [] \<rparr>"

definition pet_A :: pet where "pet_A = mkPet ''pet_a'' (0, 0)"
definition pet_B :: pet where "pet_B = mkPet ''pet_b'' (1, 0)"
definition pet_C :: pet where "pet_C = mkPet ''pet_c'' (0, 1)"

definition chasingWorld :: world where
  "chasingWorld =
     (mountedWorld [mkPet ''pet_a'' (0, 0), mkPet ''pet_b'' (1.5, 0)] 29)
       \<lparr>w_chaseMode := \<lparr> c_active = True, c_until = 4, c_chaserId = Some ''pet_a'',
                         c_runnerId = Some ''pet_b'', c_runnerPos = (0, 0, 0),
                         c_chaserPos = (0, 0, 0) \<rparr>\<rparr>"

definition cooledWorld :: world where
  "cooledWorld =
     (mountedWorld [mkPet ''pet_a'' (0, 0), mkPet ''pet_b'' (1.5, 0)] 29)
       \<lparr>w_pairCooldown := [''pet_a|pet_b'' \<mapsto> 21 / 2]\<rparr>"

text \<open>A run of manager frames. Between two of them the pets' own frames, the gestures and the
  roster edits change the roster and the pet states, and other code draws from
  \<open>Math.random()\<close>: each tick gives the clock, the roster, the pet states and the stream as the
  manager finds them. The manager's own refs are carried from frame to frame.\<close>

type_synonym tick = "real \<times> pet list \<times> (string \<rightharpoonup> pet_state) \<times> rng"

fun managerRun :: "vec2 list \<Rightarrow> tick list \<Rightarrow> world \<Rightarrow> error + world" where
  "managerRun rugs [] w = Inr w"
| "managerRun rugs (k # ks) w =
     (case managerFrame rugs (fst k) (w\<lparr>w_pets := fst (snd k), w_api := fst (snd (snd k))\<rparr>)
             (snd (snd (snd k))) of
        Inl e \<Rightarrow> Inl e
      | Inr (w', g') \<Rightarrow> managerRun rugs ks w')"

text \<open>The social state of the pet mounted under an id; whether it is active; whether an id is
  the chaser or the runner of the active episode; the invariant that no agent with a chase
  role is socially active.\<close>

definition socialOf :: "world \<Rightarrow> string \<Rightarrow> social_state option" where
  "socialOf w i = map_option ps_social (w_api w i)"

definition activeIn :: "world \<Rightarrow> string \<Rightarrow> bool" where
  "activeIn w i = (case socialOf w i of None \<Rightarrow> False | Some so \<Rightarrow> s_active so)"

definition chaseRole :: "chase_mode \<Rightarrow> string \<Rightarrow> bool" where
  "chaseRole ch i = (c_active ch \<and> (c_chaserId ch = Some i \<or> c_runnerId ch = Some i))"

definition chaseSocialExclusive :: "world \<Rightarrow> bool" where
  "chaseSocialExclusive w =
     (\<forall>i. chaseRole (w_chaseMode w) i \<longrightarrow>
          (case socialOf w i of None \<Rightarrow> True | Some so \<Rightarrow> \<not> s_active so))"

text \<open>The episode is unchanged and an agent with a chase role keeps its social state.\<close>

definition chaseKept :: "string \<Rightarrow> world \<Rightarrow> world \<Rightarrow> bool" where
  "chaseKept i w w' =
     (w_chaseMode w' = w_chaseMode w \<and>
      (chaseRole (w_chaseMode w) i \<longrightarrow> socialOf w' i = socialOf w i))"

text \<open>The cooldown recorded under a key ends no earlier than \<open>T\<close>; a greeting is one of the
  unordered pair; the greetings added from \<open>w\<close> to \<open>w'\<close> include none of the pair (resp. none
  under the key) before \<open>T\<close>.\<close>

definition cooldownAtLeast :: "string \<Rightarrow> real \<Rightarrow> world \<Rightarrow> bool" where
  "cooldownAtLeast k T w = (case w_pairCooldown w k of None \<Rightarrow> False | Some u \<Rightarrow> T \<le> u)"

definition isPair :: "string \<Rightarrow> string \<Rightarrow> string \<times> string \<times> real \<Rightarrow> bool" where
  "isPair ida idb e = (fst e = ida \<and> fst (snd e) = idb \<or> fst e = idb \<and> fst (snd e) = ida)"

definition noPairGreetBefore :: "string \<Rightarrow> string \<Rightarrow> real \<Rightarrow> world \<Rightarrow> world \<Rightarrow> bool" where
  "noPairGreetBefore ida idb T w w' =
     (\<exists>new. w_greets w' = w_greets w @ new \<and>
             (\<forall>e \<in> set new. isPair ida idb e \<longrightarrow> T \<le> snd (snd e)))"

definition greetsFrom :: "string \<Rightarrow> real \<Rightarrow> world \<Rightarrow> world \<Rightarrow> bool" where
  "greetsFrom k T w w' =
     (\<exists>new. w_greets w' = w_greets w @ new \<and>
            (\<forall>e \<in> set new. getPairKey (fst e) (fst (snd e)) = k \<longrightarrow> T \<le> snd (snd e)))"

definition cooldownKept :: "string \<Rightarrow> real \<Rightarrow> world \<Rightarrow> world \<Rightarrow> bool" where
  "cooldownKept k T w w' =
     (cooldownAtLeast k T w \<longrightarrow> cooldownAtLeast k T w' \<and> greetsFrom k T w w')"

text \<open>The conditions under which the scan greets a pair when it reaches it: two distinct
  mounted agents, both in the snapshot and closer than the greet distance there, neither with
  a role in the active chase, and no unexpired cooldown for the pair.\<close>

definition readyPair :: "world \<Rightarrow> pet \<Rightarrow> pet \<Rightarrow> real \<Rightarrow> bool" where
  "readyPair w a b t =
     (pet_id a \<noteq> pet_id b \<and> w_api w (pet_id a) \<noteq> None \<and> w_api w (pet_id b) \<noteq> None \<and>
      (case map_of (w_posMap w) (pet_id a) of
         None \<Rightarrow> False
       | Some pa \<Rightarrow>
           (case map_of (w_posMap w) (pet_id b) of
              None \<Rightarrow> False
            | Some pb \<Rightarrow> (p_x pa - p_x pb) * (p_x pa - p_x pb) + (p_z pa - p_z pb) * (p_z pa - p_z pb)
                           < SOCIAL_DISTANCE * SOCIAL_DISTANCE)) \<and>
      \<not> chaseInvolved (w_chaseMode w) (pet_id a) (pet_id b) \<and>
      \<not> t < (case w_pairCooldown w (getPairKey (pet_id a) (pet_id b)) of None \<Rightarrow> 0 | Some u \<Rightarrow> u))"

text \<open>The two agents are socially active, name each other as partner and share one \<open>until\<close>,
  which lies between \<open>t + 1.05\<close> and \<open>t + 1.5\<close>.\<close>

definition greetedPair :: "world \<Rightarrow> string \<Rightarrow> string \<Rightarrow> real \<Rightarrow> bool" where
  "greetedPair w ida idb t =
     (case socialOf w ida of
        None \<Rightarrow> False
      | Some soa \<Rightarrow>
          (case socialOf w idb of
             None \<Rightarrow> False
           | Some sob \<Rightarrow>
               s_active soa \<and> s_active sob \<and> s_partnerId soa = Some idb \<and> s_partnerId sob = Some ida \<and>
               s_until soa = s_until sob \<and> t + 1.05 \<le> s_until soa \<and> s_until soa < t + 1.5))"

text \<open>The pairs \<open>(arr[i], arr[j])\<close>, \<open>i < j\<close>, in the order in which the scan visits them, and the
  scan as one loop over a list of pairs. A pair is aloof from the ids \<open>ida\<close>, \<open>idb\<close> when it
  cannot greet (a pose is missing or the two are not within the greet distance in the snapshot)
  or when it involves neither id and has another key.\<close>

fun allPairs :: "'a list \<Rightarrow> ('a \<times> 'a) list" where
  "allPairs [] = []"
| "allPairs (x # xs) = map (Pair x) xs @ allPairs xs"

fun scanPairs ::
  "vec2 list \<Rightarrow> real \<Rightarrow> (pet \<times> pet) list \<Rightarrow> world \<Rightarrow> rng \<Rightarrow> error + world \<times> rng" where
  "scanPairs rugs time [] w g = Inr (w, g)"
| "scanPairs rugs time (p # ps) w g =
     (case greetPair rugs time (fst p) (snd p) w g of
        Inl e \<Rightarrow> Inl e
      | Inr (w', g') \<Rightarrow> scanPairs rugs time ps w' g')"

definition aloof :: "posMap \<Rightarrow> string \<Rightarrow> string \<Rightarrow> pet \<times> pet \<Rightarrow> bool" where
  "aloof pm ida idb p =
     ((case map_of pm (pet_id (fst p)) of
         None \<Rightarrow> True
       | Some px \<Rightarrow>
           (case map_of pm (pet_id (snd p)) of
              None \<Rightarrow> True
            | Some py \<Rightarrow> \<not> (p_x px - p_x py) * (p_x px - p_x py) + (p_z px - p_z py) * (p_z px - p_z py)
                             < SOCIAL_DISTANCE * SOCIAL_DISTANCE))
      \<or> (pet_id (fst p) \<noteq> ida \<and> pet_id (fst p) \<noteq> idb \<and> pet_id (snd p) \<noteq> ida \<and> pet_id (snd p) \<noteq> idb
          \<and> getPairKey (pet_id (fst p)) (pet_id (snd p)) \<noteq> getPairKey ida idb))"

section \<open>Draws and picks\<close>

lemma pick_in_range:
  assumes "arr \<noteq> []" "0 \<le> r" "r < 1"
  shows "\<exists>x. pick arr r = Some x \<and> x \<in> set arr"
proof -
  let ?n = "real (length arr)"
  have n: "0 < ?n" using assms(1) by simp
  have lo: "0 \<le> r * ?n" using assms(2) by simp
  have hi: "r * ?n < ?n" using assms(3) n by simp
  have f0: "0 \<le> \<lfloor>r * ?n\<rfloor>" using lo by simp
  have "\<lfloor>r * ?n\<rfloor> < int (length arr)" using hi by (simp add: floor_less_iff)
  then have f1: "nat \<lfloor>r * ?n\<rfloor> < length arr" using f0 by linarith
  show ?thesis using f0 f1 by (simp add: pick_def Let_def)
qed

lemma unit_draws_shd: "unit_draws g \<Longrightarrow> 0 \<le> shd g \<and> shd g < 1"
  unfolding unit_draws_def by (metis snth.simps(1))

lemma unit_draws_stl: "unit_draws g \<Longrightarrow> unit_draws (stl g)"
  unfolding unit_draws_def by (metis snth.simps(2))

lemma unit_draws_half: "unit_draws (sconst (1 / 2))"
  by (simp add: unit_draws_def)

lemma unit_draws_zero: "unit_draws (sconst 0)"
  by (simp add: unit_draws_def)

lemma pickRestSpot_total:
  assumes "unit_draws g"
  shows "\<exists>b' g'. pickRestSpot br rugs g = Inr (b', g') \<and> unit_draws g' \<and> b_mode b' = b_mode br
            \<and> b_walkS b' = b_walkS br \<and> b_t b' = b_t br"
proof (cases "rugs = []")
  case True
  then show ?thesis using assms by (simp add: pickRestSpot_def)
next
  case False
  then obtain x where "pick rugs (shd g) = Some x"
    using pick_in_range unit_draws_shd[OF assms] by blast
  then show ?thesis using False unit_draws_stl[OF assms] by (simp add: pickRestSpot_def)
qed

lemma sleepCheck_total:
  assumes "unit_draws g"
  shows "\<exists>b' g'. sleepCheck br ps now g = Inr (b', g') \<and> unit_draws g'"
proof -
  have u1: "unit_draws (stl g)" and u2: "unit_draws (stl (stl g))"
    using assms unit_draws_stl by blast+
  obtain b' g' where
    "pickRestSpot (br\<lparr>b_mode := Sleeping, b_t := randRange 3.0 6.0 (shd (stl g))\<rparr>)
        (bp_rugs ps) (stl (stl g)) = Inr (b', g')" "unit_draws g'"
    using pickRestSpot_total[OF u2] by blast
  then show ?thesis using assms u1 by (simp add: sleepCheck_def Let_def)
qed

lemma wanderTransitions_total:
  assumes "unit_draws g"
  shows "\<exists>b' g'. wanderTransitions br ps g = Inr (b', g') \<and> unit_draws g'"
proof -
  have u1: "unit_draws (stl g)" and u2: "unit_draws (stl (stl g))"
    and u3: "unit_draws (stl (stl (stl g)))"
    using assms unit_draws_stl by blast+
  obtain b' g' where
    "pickRestSpot (br\<lparr>b_walkS := b_walkS br + bp_dt ps, b_mode := Resting,
        b_t := randRange (fst restDuration) (snd restDuration) (shd (stl g)), b_walkS := 0\<rparr>)
        (bp_rugs ps) (stl (stl g)) = Inr (b', g')" "unit_draws g'"
    using pickRestSpot_total[OF u2] by blast
  then show ?thesis using assms u1 u2 u3 by (simp add: wanderTransitions_def Let_def)
qed

lemma updateBrain_total:
  assumes "unit_draws g"
  shows "\<exists>b' g'. updateBrain br ps now g = Inr (b', g') \<and> unit_draws g'"
proof -
  let ?br = "br\<lparr>b_t := b_t br - bp_dt ps\<rparr>"
  obtain b1 g1 where s: "sleepCheck ?br ps now g = Inr (b1, g1)" "unit_draws g1"
    using sleepCheck_total[OF assms] by blast
  obtain b2 g2 where w: "wanderTransitions b1 ps g1 = Inr (b2, g2)" "unit_draws g2"
    using wanderTransitions_total[OF s(2)] by blast
  show ?thesis using assms s w by (simp add: updateBrain_def Let_def)
qed

section \<open>The pet frame: what each phase changes\<close>

lemma socialPhase_petting: "ps_petting (socialPhase st time) = ps_petting st"
  by (simp add: socialPhase_def Let_def)



lemma lovePhase_love:
  "pt_love (ps_petting (fst (lovePhase st dt g))) = max 0 (pt_love (ps_petting st) - dt * 0.55)"
  by (simp add: lovePhase_def Let_def)



lemma lovePhase_draws: "unit_draws g \<Longrightarrow> unit_draws (snd (lovePhase st dt g))"
  by (simp add: lovePhase_def Let_def unit_draws_stl)

lemma chasePhase_petting: "ps_petting (chasePhase pp st chase time) = ps_petting st"
  by (simp add: chasePhase_def Let_def)



lemma yawPhase_petting: "ps_petting (yawPhase st dxp dzp) = ps_petting st"
  by (simp add: yawPhase_def Let_def)


lemma integrate_petting: "ps_petting (integrate pp st fi) = ps_petting st"
  by (simp add: integrate_def Let_def)

lemma clamp_bounds: "a \<le> b \<Longrightarrow> a \<le> clamp v a b \<and> clamp v a b \<le> b"
  by (simp add: clamp_def)


lemma aiPhase_Inr:
  assumes "aiPhase pp st fi chase pm g = Inr (st', g')"
  obtains B g1 st1 dxp dzp where "st' = yawPhase (integrate pp st1 fi) dxp dzp"
    and "ps_petting st1 = ps_petting st"
  using assms unfolding aiPhase_def Let_def
  by (auto split: sum.splits prod.splits)

lemma aiPhase_total:
  assumes "unit_draws g"
  shows "\<exists>st' g'. aiPhase pp st fi chase pm g = Inr (st', g') \<and> unit_draws g'"
proof -
  let ?ps = "\<lparr> bp_dt = f_dt fi, bp_time = f_time fi, bp_isHeld = ps_held st,
                  bp_socialActive = s_active (ps_social st),
                  bp_playerDist2 = (fst (f_camera fi) - fst (ps_pos st)) * (fst (f_camera fi) - fst (ps_pos st))
                     + (snd (snd (f_camera fi)) - snd (snd (ps_pos st))) * (snd (snd (f_camera fi)) - snd (snd (ps_pos st))),
                  bp_chaseMode = chase, bp_petId = pet_id (pp_pet pp), bp_rugs = pp_rugs pp \<rparr>"
  obtain b' g' where "updateBrain (ps_brain st) ?ps (f_now fi) g = Inr (b', g')" "unit_draws g'"
    using updateBrain_total[OF assms] by blast
  then show ?thesis by (simp add: aiPhase_def Let_def)
qed

lemma petFrame_total:
  assumes "unit_draws g"
  shows "\<exists>st' g'. petFrame pp st fi chase pm g = Inr (st', g') \<and> unit_draws g'"
proof -
  have u: "unit_draws (snd (lovePhase (socialPhase st (f_time fi)) (f_dt fi) g))"
    using assms by (rule lovePhase_draws)
  show ?thesis using u aiPhase_total[OF u] by (auto simp: petFrame_def Let_def)
qed

lemma petFrame_love:
  assumes "petFrame pp st fi chase pm g = Inr (st', g')"
  shows "pt_love (ps_petting st') = max 0 (pt_love (ps_petting st) - f_dt fi * 0.55)"
proof -
  let ?st3 = "chasePhase pp (fst (lovePhase (socialPhase st (f_time fi)) (f_dt fi) g)) chase (f_time fi)"
  have l3: "pt_love (ps_petting ?st3) = max 0 (pt_love (ps_petting st) - f_dt fi * 0.55)"
    by (simp add: chasePhase_petting lovePhase_love socialPhase_petting)
  show ?thesis
  proof (cases "ps_held ?st3")
    case True
    then have "st' = ?st3" using assms by (simp add: petFrame_def Let_def)
    then show ?thesis using l3 by simp
  next
    case False
    then have "aiPhase pp ?st3 fi chase pm (snd (lovePhase (socialPhase st (f_time fi)) (f_dt fi) g)) = Inr (st', g')"
      using assms by (simp add: petFrame_def Let_def)
    then obtain st1 dxp dzp where "st' = yawPhase (integrate pp st1 fi) dxp dzp"
      "ps_petting st1 = ps_petting ?st3"
      by (rule aiPhase_Inr)
    then show ?thesis using l3 by (simp add: yawPhase_petting integrate_petting)
  qed
qed










lemma lovePhase_social: "ps_social (fst (lovePhase st dt g)) = ps_social st"
  by (simp add: lovePhase_def Let_def)

lemma chasePhase_social: "ps_social (chasePhase pp st chase time) = ps_social st"
  by (simp add: chasePhase_def Let_def)

lemma socialPhase_social: "ps_social (socialPhase st time) = fst (updateSocialState (ps_social st) time)"
  by (simp add: socialPhase_def Let_def)

lemma aiPhase_social:
  assumes "aiPhase pp st fi chase pm g = Inr (st', g')"
  shows "ps_social st' = ps_social st"
  using assms unfolding aiPhase_def Let_def
  by (auto split: sum.splits prod.splits simp: yawPhase_def integrate_def Let_def)

text \<open>A pet's own frame clears its social state only once the clock has passed \<open>until\<close>.\<close>

lemma petFrame_social:
  assumes "petFrame pp st fi chase pm g = Inr (st', g')"
  shows "ps_social st' = fst (updateSocialState (ps_social st) (f_time fi))"
proof -
  let ?st3 = "chasePhase pp (fst (lovePhase (socialPhase st (f_time fi)) (f_dt fi) g)) chase (f_time fi)"
  have s3: "ps_social ?st3 = fst (updateSocialState (ps_social st) (f_time fi))"
    by (simp add: chasePhase_social lovePhase_social socialPhase_social)
  show ?thesis
  proof (cases "ps_held ?st3")
    case True
    then have "st' = ?st3" using assms by (simp add: petFrame_def Let_def)
    then show ?thesis using s3 by simp
  next
    case False
    then have "aiPhase pp ?st3 fi chase pm (snd (lovePhase (socialPhase st (f_time fi)) (f_dt fi) g)) = Inr (st', g')"
      using assms by (simp add: petFrame_def Let_def)
    then show ?thesis using s3 aiPhase_social by simp
  qed
qed

lemma petFrame_keeps_active:
  assumes "petFrame pp st fi chase pm g = Inr (st', g')"
    and "s_active (ps_social st)" "f_time fi \<le> s_until (ps_social st)"
  shows "ps_social st' = ps_social st"
  using petFrame_social[OF assms(1)] assms(2,3) by (simp add: updateSocialState_def)

lemma petFrames_total:
  "unit_draws g \<Longrightarrow> \<exists>st' g'. petFrames pp st ins g = Inr (st', g') \<and> unit_draws g'"
proof (induction ins arbitrary: st g)
  case Nil
  then show ?case by simp
next
  case (Cons i ins)
  obtain st1 g1 where s: "petFrame pp st (fst i) (fst (snd i)) (snd (snd i)) g = Inr (st1, g1)"
    "unit_draws g1"
    using petFrame_total[OF Cons.prems] by blast
  show ?case using Cons.IH[OF s(2)] s(1) by simp
qed

section \<open>World bounds\<close>



section \<open>Affinity decay\<close>

lemma decay_compose:
  fixes a :: real
  assumes "0 \<le> d" "0 \<le> D"
  shows "max 0 (max 0 (a - d * 0.55) - 0.55 * D) = max 0 (a - 0.55 * (d + D))"
proof -
  have "0 \<le> 0.55 * D" using assms(2) by simp
  then show ?thesis by (simp add: max_def algebra_simps)
qed

lemma petFrames_love:
  assumes "petFrames pp st ins g = Inr (st', g')" "\<forall>i \<in> set ins. 0 \<le> f_dt (fst i)"
  shows "pt_love (ps_petting st') =
           (if ins = [] then pt_love (ps_petting st)
            else max 0 (pt_love (ps_petting st) - 0.55 * (\<Sum>i\<leftarrow>ins. f_dt (fst i))))"
  using assms
proof (induction ins arbitrary: st g)
  case Nil
  then show ?case by simp
next
  case (Cons i ins)
  from Cons.prems(1) obtain st1 g1 where
    s: "petFrame pp st (fst i) (fst (snd i)) (snd (snd i)) g = Inr (st1, g1)"
    and r: "petFrames pp st1 ins g1 = Inr (st', g')"
    by (auto split: sum.splits)
  have l1: "pt_love (ps_petting st1) = max 0 (pt_love (ps_petting st) - f_dt (fst i) * 0.55)"
    using petFrame_love[OF s] .
  have nn: "\<forall>j \<in> set ins. 0 \<le> f_dt (fst j)" using Cons.prems(2) by simp
  have d0: "0 \<le> f_dt (fst i)" using Cons.prems(2) by simp
  have D0: "0 \<le> (\<Sum>j\<leftarrow>ins. f_dt (fst j))" using nn by (intro sum_list_nonneg) auto
  show ?case
  proof (cases "ins = []")
    case True
    then show ?thesis using r l1 by (simp add: mult.commute)
  next
    case False
    then have "pt_love (ps_petting st') = max 0 (pt_love (ps_petting st1) - 0.55 * (\<Sum>j\<leftarrow>ins. f_dt (fst j)))"
      using Cons.IH[OF r nn] by simp
    then show ?thesis using l1 decay_compose[OF d0 D0] by simp
  qed
qed

text \<open>
  Claim C8. Over any run of frames with no rub event between them and non-negative frame
  times, the affinity (\<open>love\<close>) after the run is \<open>max 0 (love - 0.55 * \<Delta>)\<close> for the elapsed
  \<open>\<Delta>\<close>, the sum of the frame times; it is no greater than before and never below \<open>0\<close>.
\<close>

theorem affinity_decay:
  assumes "petFrames pp st ins g = Inr (st', g')" and "\<forall>i \<in> set ins. 0 \<le> f_dt (fst i)"
    and "0 \<le> pt_love (ps_petting st)"
  shows "pt_love (ps_petting st') = max 0 (pt_love (ps_petting st) - 0.55 * (\<Sum>i\<leftarrow>ins. f_dt (fst i)))
       \<and> pt_love (ps_petting st') \<le> pt_love (ps_petting st)
       \<and> 0 \<le> pt_love (ps_petting st')"
proof -
  have D0: "0 \<le> (\<Sum>j\<leftarrow>ins. f_dt (fst j))" using assms(2) by (intro sum_list_nonneg) auto
  have "pt_love (ps_petting st') = max 0 (pt_love (ps_petting st) - 0.55 * (\<Sum>i\<leftarrow>ins. f_dt (fst i)))"
    using petFrames_love[OF assms(1,2)] assms(3) by (cases "ins = []") simp_all
  then show ?thesis using D0 assms(3) by (simp add: max_def)
qed

text \<open>
  Claim C8 at an input: affinity \<open>1\<close> and two frames of \<open>1/60\<close> s leave \<open>1 - 0.55 / 30\<close>.
\<close>

theorem affinity_decay_witness:
  "\<exists>st' g'. petFrames pet_a_props
       ((initPetState pet_a_props)\<lparr>ps_petting := \<lparr> pt_lastX = 0, pt_lastDir = 0, pt_flips = 0,
                                                     pt_love = 1, pt_emitT = 0 \<rparr>\<rparr>)
       [(\<lparr> f_time = 1, f_dt = 1 / 60, f_camera = (0, 1.6, 8), f_now = 1 \<rparr>, None, None),
        (\<lparr> f_time = 1 + 1 / 60, f_dt = 1 / 60, f_camera = (0, 1.6, 8), f_now = 1 + 1 / 60 \<rparr>, None, None)]
       (sconst (1 / 2)) = Inr (st', g')
     \<and> pt_love (ps_petting st') = 589 / 600
     \<and> pt_love (ps_petting st') \<le> 1 \<and> 0 \<le> pt_love (ps_petting st')"
proof -
  let ?st = "(initPetState pet_a_props)\<lparr>ps_petting := \<lparr> pt_lastX = 0, pt_lastDir = 0, pt_flips = 0,
                                                     pt_love = 1, pt_emitT = 0 \<rparr>\<rparr>"
  let ?ins = "[(\<lparr> f_time = 1, f_dt = 1 / 60, f_camera = (0, 1.6, 8), f_now = 1 \<rparr>, None, None),
        (\<lparr> f_time = 1 + 1 / 60, f_dt = 1 / 60, f_camera = (0, 1.6, 8), f_now = 1 + 1 / 60 \<rparr>, None :: chase_mode option, None :: posMap option)]"
  obtain st' g' where r: "petFrames pet_a_props ?st ?ins (sconst (1 / 2)) = Inr (st', g')"
    using petFrames_total[OF unit_draws_half] by blast
  have nn: "\<forall>i \<in> set ?ins. 0 \<le> f_dt (fst i)" by simp
  have l0: "0 \<le> pt_love (ps_petting ?st)" by simp
  from affinity_decay [OF r nn l0]
  have "pt_love (ps_petting st') = 589 / 600
     \<and> pt_love (ps_petting st') \<le> 1 \<and> 0 \<le> pt_love (ps_petting st')"
    by simp
  with r show ?thesis by blast
qed

section \<open>Yaw damping\<close>

lemma pi_ge_three: "3 \<le> pi"
proof -
  have "sin (pi / 6) \<le> pi / 6" by (rule sin_x_le_x) simp
  then show ?thesis by (simp add: sin_30)
qed

lemma js_trunc_zero: "- 1 < q \<Longrightarrow> q < 1 \<Longrightarrow> js_trunc q = 0"
  unfolding js_trunc_def by (auto simp: ceiling_eq_iff floor_eq_iff)

lemma js_rem_small: "0 < d \<Longrightarrow> - d < n \<Longrightarrow> n < d \<Longrightarrow> js_rem n d = n"
proof -
  assume d: "0 < d" and lo: "- d < n" and hi: "n < d"
  have "- 1 < n / d" using d lo by (simp add: pos_less_divide_eq)
  moreover have "n / d < 1" using d hi by simp
  ultimately have "js_trunc (n / d) = 0" by (rule js_trunc_zero)
  then show ?thesis by (simp add: js_rem_def)
qed

lemma ang_dist_first_turn:
  assumes "0 \<le> a - b" "a - b < 2 * pi"
  shows "ang_dist a b = min (a - b) (2 * pi - (a - b))"
proof -
  have "0 \<le> (a - b) / (2 * pi)" using assms(1) by simp
  moreover have "(a - b) / (2 * pi) < 1" using assms(2) by simp
  ultimately have "\<lfloor>(a - b) / (2 * pi)\<rfloor> = 0" by (simp add: floor_eq_iff)
  then show ?thesis by (simp add: ang_dist_def Let_def)
qed

lemma ang_dist_offset:
  assumes e: "- pi \<le> e" "e < pi" and x: "x - b = - e - 2 * pi * of_int q"
  shows "ang_dist x b = \<bar>e\<bar>"
proof -
  have q2: "(x - b) / (2 * pi) = (- e) / (2 * pi) - of_int q"
    using x by (simp add: field_simps)
  have fl: "\<lfloor>(x - b) / (2 * pi)\<rfloor> = \<lfloor>(- e) / (2 * pi)\<rfloor> - q"
    unfolding q2 by simp
  show ?thesis
  proof (cases "e \<le> 0")
    case True
    have "0 \<le> (- e) / (2 * pi)" using True by (intro divide_nonneg_pos) simp_all
    moreover have "(- e) / (2 * pi) < 1"
    proof -
      have "- e < 2 * pi" using e(1) pi_gt_zero by linarith
      then show ?thesis by (subst pos_divide_less_eq) simp_all
    qed
    ultimately have "\<lfloor>(- e) / (2 * pi)\<rfloor> = 0" by (simp only: floor_eq_iff) simp
    then have f0: "\<lfloor>(x - b) / (2 * pi)\<rfloor> = - q" using fl by simp
    have "(x - b) - 2 * pi * of_int \<lfloor>(x - b) / (2 * pi)\<rfloor> = - e"
      by (simp only: f0) (simp add: x)
    then show ?thesis using True e(1) by (simp add: ang_dist_def Let_def min_def)
  next
    case False
    then have pos: "0 < e" by simp
    have "- 1 \<le> (- e) / (2 * pi)"
    proof -
      have "- 1 * (2 * pi) \<le> - e" using e(2) pi_gt_zero by linarith
      then show ?thesis by (subst pos_le_divide_eq) simp_all
    qed
    moreover have "(- e) / (2 * pi) < 0" using pos by (intro divide_neg_pos) simp_all
    ultimately have "\<lfloor>(- e) / (2 * pi)\<rfloor> = - 1" by (simp only: floor_eq_iff) simp
    then have f1: "\<lfloor>(x - b) / (2 * pi)\<rfloor> = - 1 - q" using fl by simp
    have "(x - b) - 2 * pi * of_int \<lfloor>(x - b) / (2 * pi)\<rfloor> = 2 * pi - e"
      by (simp only: f1) (simp add: x algebra_simps)
    then show ?thesis using pos e(2) by (simp add: ang_dist_def Let_def min_def)
  qed
qed

text \<open>When the target is not more than half a turn behind the yaw (\<open>- pi \<le> b - a\<close>), the
  remainder is the mathematical one and a step shrinks the shortest angular distance by the
  factor \<open>1 - s\<close>.\<close>

lemma dampAngle_short_arc:
  assumes "- pi \<le> b - a" "0 \<le> s" "s \<le> 1"
  shows "ang_dist (dampAngle a b s) b = (1 - s) * ang_dist a b"
proof -
  define n where "n = b - a + pi"
  define q where "q = \<lfloor>n / (pi * 2)\<rfloor>"
  define d where "d = n - pi * 2 * of_int q - pi"
  have n0: "0 \<le> n" using assms(1) by (simp add: n_def)
  then have "0 \<le> n / (pi * 2)" by simp
  then have tr: "js_trunc (n / (pi * 2)) = q" by (simp add: js_trunc_def q_def)
  have rem: "js_rem n (pi * 2) = n - pi * 2 * of_int q" by (simp add: js_rem_def tr)
  have da: "dampAngle a b s = a + d * s"
    using rem by (simp add: dampAngle_def Let_def d_def n_def)
  have ql: "of_int q \<le> n / (pi * 2)" and qu: "n / (pi * 2) < of_int q + 1"
    unfolding q_def by linarith+
  have r0: "0 \<le> n - pi * 2 * of_int q"
    using ql by (simp add: field_simps)
  have r1: "n - pi * 2 * of_int q < pi * 2"
    using qu by (simp add: field_simps)
  have dl: "- pi \<le> d" and du: "d < pi" using r0 r1 by (simp_all add: d_def)
  have ab: "a - b = - d - 2 * pi * of_int q" by (simp add: d_def n_def)
  have a0: "ang_dist a b = \<bar>d\<bar>" using ang_dist_offset[OF dl du ab] .
  let ?e = "d * (1 - s)"
  have c: "0 \<le> 1 - s" "1 - s \<le> 1" using assms(2,3) by simp_all
  have el: "- pi \<le> ?e"
  proof (cases "0 \<le> d")
    case True
    then have "0 \<le> ?e" using c(1) by simp
    then show ?thesis using pi_ge_zero by linarith
  next
    case False
    then have "d * s \<le> 0" using assms(2) by (simp add: mult_le_0_iff)
    then have "d \<le> ?e" by (simp add: algebra_simps)
    then show ?thesis using dl by linarith
  qed
  have eu: "?e < pi"
  proof (cases "0 \<le> d")
    case True
    then have "0 \<le> d * s" using assms(2) by simp
    then have "?e \<le> d" by (simp add: algebra_simps)
    then show ?thesis using du by linarith
  next
    case False
    then have "?e \<le> 0" using c(1) by (simp add: mult_le_0_iff)
    then show ?thesis using pi_gt_zero by linarith
  qed
  have xb: "(a + d * s) - b = - ?e - 2 * pi * of_int q"
    using ab by (simp add: algebra_simps)
  have "ang_dist (a + d * s) b = \<bar>?e\<bar>" using ang_dist_offset[OF el eu xb] .
  also have "\<dots> = (1 - s) * \<bar>d\<bar>" using c(1) by (simp add: abs_mult)
  finally show ?thesis by (simp add: da a0)
qed

text \<open>
  Claim C4, at the input yaw \<open>2.5\<close>, target \<open>- 2.5\<close>, factor \<open>0.09\<close>: the remainder of the
  negative dividend \<open>b - a + pi\<close> is negative, the correction is \<open>- 5\<close> instead of
  \<open>2 * pi - 5\<close>, the yaw moves to \<open>2.05\<close> along the longer arc and the shortest angular distance
  to the target grows from \<open>2 * pi - 5\<close> to \<open>2 * pi - 4.55\<close>.
\<close>

theorem dampAngle_takes_long_arc:
  "dampAngle 2.5 (- 2.5) 0.09 = 2.05
   \<and> ang_dist 2.5 (- 2.5) = 2 * pi - 5
   \<and> ang_dist (dampAngle 2.5 (- 2.5) 0.09) (- 2.5) = 2 * pi - 4.55
   \<and> ang_dist 2.5 (- 2.5) < ang_dist (dampAngle 2.5 (- 2.5) 0.09) (- 2.5)"
proof -
  have p3: "3 \<le> pi" by (rule pi_ge_three)
  have p4: "pi < 4" by (rule pi_less_4)
  have "js_rem (- 2.5 - 2.5 + pi) (pi * 2) = - 2.5 - 2.5 + pi"
    using p3 p4 by (intro js_rem_small) simp_all
  then have d: "dampAngle 2.5 (- 2.5) 0.09 = 2.05" by (simp add: dampAngle_def Let_def)
  have a1: "ang_dist 2.5 (- 2.5) = 2 * pi - 5"
    using p3 p4 by (subst ang_dist_first_turn) (simp_all add: min_def)
  have a2: "ang_dist 2.05 (- 2.5) = 2 * pi - 4.55"
    using p3 p4 by (subst ang_dist_first_turn) (simp_all add: min_def)
  have a3: "ang_dist (dampAngle 2.5 (- 2.5) 0.09) (- 2.5) = 2 * pi - 4.55"
    by (simp only: d a2)
  have lt: "ang_dist 2.5 (- 2.5) < ang_dist (dampAngle 2.5 (- 2.5) 0.09) (- 2.5)"
    unfolding a3 a1 by simp
  show ?thesis using d a1 a3 lt by blast
qed

section \<open>Roster capacity\<close>



section \<open>Following the observer\<close>







section \<open>The manager: greetings, cooldowns and the chase episode\<close>

lemma gardenRugs_nonempty: "gardenRugs \<noteq> []"
  by (simp add: gardenRugs_def)

lemmas frame_eval =
  managerFrame_def mountedWorld_def chaseArbitration_def startChaseBurst_def drawPair_def
  createChaseMode_def chaseChancePerS_def mkPet_def SOCIAL_CHECK_EVERY_FRAMES_def
  snapshot_def snapshotStep_def getPose_def initPetState_def petProps_def hoverBaseY_def
  createBrainState_def createSocialState_def greetPair_def greet_def cuddlePile_def
  chaseInvolved_def getPairKey_def SOCIAL_DISTANCE_def SOCIAL_COOLDOWN_S_def
  callSetSocial_def setSocial_def pick_def Let_def

lemma getPairKey_commute: "getPairKey ida idb = getPairKey idb ida"
  by (auto simp: getPairKey_def)

lemma callSetSocial_fields [simp]:
  "w_pairCooldown (callSetSocial w i u p pp) = w_pairCooldown w"
  "w_chaseMode (callSetSocial w i u p pp) = w_chaseMode w"
  "w_greets (callSetSocial w i u p pp) = w_greets w"
  "w_pets (callSetSocial w i u p pp) = w_pets w"
  "w_posMap (callSetSocial w i u p pp) = w_posMap w"
  "w_frameCounter (callSetSocial w i u p pp) = w_frameCounter w"
  "w_lastSleepSpot (callSetSocial w i u p pp) = w_lastSleepSpot w"
  by (simp_all add: callSetSocial_def split: option.splits)

lemma callSetSocial_api:
  "w_api (callSetSocial w i u p pp) j =
     (if j = i then map_option (\<lambda>st. setSocial st True u (Some p) (Some pp)) (w_api w i)
      else w_api w j)"
  by (simp add: callSetSocial_def split: option.splits)

lemma callNudge_fields [simp]:
  "w_pairCooldown (callNudge w i spot r) = w_pairCooldown w"
  "w_chaseMode (callNudge w i spot r) = w_chaseMode w"
  "w_greets (callNudge w i spot r) = w_greets w"
  "w_pets (callNudge w i spot r) = w_pets w"
  "w_posMap (callNudge w i spot r) = w_posMap w"
  "w_frameCounter (callNudge w i spot r) = w_frameCounter w"
  by (simp_all add: callNudge_def split: option.splits)

lemma callNudge_social: "socialOf (callNudge w i spot r) j = socialOf w j"
  by (simp add: callNudge_def socialOf_def nudgeToSleepSpot_def split: option.splits)

lemma setSocial_social:
  "s_active (ps_social (setSocial st True u (Some p) (Some pp)))
   \<and> s_until (ps_social (setSocial st True u (Some p) (Some pp))) = u
   \<and> s_partnerId (ps_social (setSocial st True u (Some p) (Some pp))) = Some p"
  by (simp add: setSocial_def Let_def)

lemma socialOf_lastSleepSpot: "socialOf (w\<lparr>w_lastSleepSpot := x\<rparr>) j = socialOf w j"
  by (simp add: socialOf_def)

text \<open>What the cuddle-pile step leaves alone.\<close>

lemma cuddlePile_frame:
  assumes "cuddlePile rugs a b pa pb w g = Inr (w', g')"
  shows "w_pairCooldown w' = w_pairCooldown w \<and> w_chaseMode w' = w_chaseMode w
       \<and> w_greets w' = w_greets w \<and> (\<forall>j. socialOf w' j = socialOf w j)"
  using assms unfolding cuddlePile_def Let_def
  by (auto split: if_splits option.splits simp: callNudge_social socialOf_lastSleepSpot)

lemma cuddlePile_total:
  assumes "unit_draws g" "rugs \<noteq> []"
  shows "\<exists>w' g'. cuddlePile rugs a b pa pb w g = Inr (w', g')"
proof -
  have "0 \<le> shd (stl g) \<and> shd (stl g) < 1"
    using assms(1) unit_draws_stl unit_draws_shd by blast
  then obtain sp where "pick rugs (shd (stl g)) = Some sp"
    using pick_in_range[OF assms(2)] by blast
  then show ?thesis
    unfolding cuddlePile_def Let_def by (auto split: option.splits)
qed

lemma socialOf_callSetSocial:
  "socialOf (callSetSocial w i u p pp) j =
     (if j = i then map_option (\<lambda>st. ps_social (setSocial st True u (Some p) (Some pp))) (w_api w i)
      else socialOf w j)"
  by (simp add: socialOf_def callSetSocial_api option.map_comp comp_def)

lemma socialOf_greets_upd: "socialOf (w\<lparr>w_greets := x\<rparr>) j = socialOf w j"
  by (simp add: socialOf_def)

lemma socialOf_cooldown_upd: "socialOf (w\<lparr>w_pairCooldown := x\<rparr>) j = socialOf w j"
  by (simp add: socialOf_def)

lemma api_cooldown_upd: "w_api (w\<lparr>w_pairCooldown := x\<rparr>) = w_api w"
  by simp

text \<open>The effect of one greeting.\<close>

lemma greet_effect:
  assumes "greet rugs t a b pa pb w g = Inr (w', g')"
  shows "w_pairCooldown w' = (w_pairCooldown w)(getPairKey (pet_id a) (pet_id b) \<mapsto> t + 10)"
    and "w_chaseMode w' = w_chaseMode w"
    and "w_greets w' = w_greets w @ [(pet_id a, pet_id b, t)]"
    and "j \<noteq> pet_id a \<Longrightarrow> j \<noteq> pet_id b \<Longrightarrow> socialOf w' j = socialOf w j"
    and "socialOf w' (pet_id b) =
           map_option (\<lambda>st. ps_social (setSocial st True (t + (1.05 + shd g * 0.45))
                                 (Some (pet_id a)) (Some (p_x pa, BASE_Y, p_z pa))))
             (w_api (callSetSocial w (pet_id a) (t + (1.05 + shd g * 0.45)) (pet_id b)
                       (p_x pb, BASE_Y, p_z pb)) (pet_id b))"
    and "pet_id a \<noteq> pet_id b \<Longrightarrow> socialOf w' (pet_id a) =
           map_option (\<lambda>st. ps_social (setSocial st True (t + (1.05 + shd g * 0.45))
                                 (Some (pet_id b)) (Some (p_x pb, BASE_Y, p_z pb))))
             (w_api w (pet_id a))"
proof -
  let ?u = "t + (1.05 + shd g * 0.45)"
  let ?w1 = "w\<lparr>w_pairCooldown := (w_pairCooldown w)(getPairKey (pet_id a) (pet_id b) \<mapsto> t + SOCIAL_COOLDOWN_S)\<rparr>"
  let ?w2 = "callSetSocial ?w1 (pet_id a) ?u (pet_id b) (p_x pb, BASE_Y, p_z pb)"
  let ?w3 = "callSetSocial ?w2 (pet_id b) ?u (pet_id a) (p_x pa, BASE_Y, p_z pa)"
  let ?w4 = "?w3\<lparr>w_greets := w_greets ?w3 @ [(pet_id a, pet_id b, t)]\<rparr>"
  have c: "cuddlePile rugs a b pa pb ?w4 (stl g) = Inr (w', g')"
    using assms by (simp add: greet_def Let_def)
  note f = cuddlePile_frame[OF c]
  show "w_pairCooldown w' = (w_pairCooldown w)(getPairKey (pet_id a) (pet_id b) \<mapsto> t + 10)"
    using f by (simp add: SOCIAL_COOLDOWN_S_def)
  show "w_chaseMode w' = w_chaseMode w" using f by simp
  show "w_greets w' = w_greets w @ [(pet_id a, pet_id b, t)]" using f by simp
  have s: "socialOf w' j = socialOf ?w3 j" for j
    using f by (simp add: socialOf_greets_upd)
  show "socialOf w' j = socialOf w j" if "j \<noteq> pet_id a" "j \<noteq> pet_id b"
    using that by (simp add: s socialOf_callSetSocial socialOf_cooldown_upd)
  show "socialOf w' (pet_id b) =
           map_option (\<lambda>st. ps_social (setSocial st True ?u
                                 (Some (pet_id a)) (Some (p_x pa, BASE_Y, p_z pa))))
             (w_api (callSetSocial w (pet_id a) ?u (pet_id b)
                       (p_x pb, BASE_Y, p_z pb)) (pet_id b))"
    by (simp add: s socialOf_callSetSocial callSetSocial_api)
  show "socialOf w' (pet_id a) =
           map_option (\<lambda>st. ps_social (setSocial st True ?u
                                 (Some (pet_id b)) (Some (p_x pb, BASE_Y, p_z pb))))
             (w_api w (pet_id a))" if "pet_id a \<noteq> pet_id b"
    using that by (simp add: s socialOf_callSetSocial)
qed

lemma callSetSocial_keeps_active:
  assumes "socialOf v j = Some so0" "s_active so0"
  shows "\<exists>so'. socialOf (callSetSocial v i u p pp) j = Some so' \<and> s_active so'"
proof (cases "j = i")
  case True
  then obtain st where "w_api v i = Some st" using assms(1) by (auto simp: socialOf_def)
  then show ?thesis using True setSocial_social by (simp add: socialOf_callSetSocial)
next
  case False
  then show ?thesis using assms by (simp add: socialOf_callSetSocial)
qed

lemma greet_keeps_active:
  assumes "greet rugs t a b pa pb w g = Inr (w', g')"
    and "socialOf w j = Some so" "s_active so"
  shows "\<exists>so'. socialOf w' j = Some so' \<and> s_active so'"
proof -
  let ?u = "t + (1.05 + shd g * 0.45)"
  let ?w1 = "w\<lparr>w_pairCooldown := (w_pairCooldown w)(getPairKey (pet_id a) (pet_id b) \<mapsto> t + SOCIAL_COOLDOWN_S)\<rparr>"
  let ?w2 = "callSetSocial ?w1 (pet_id a) ?u (pet_id b) (p_x pb, BASE_Y, p_z pb)"
  let ?w3 = "callSetSocial ?w2 (pet_id b) ?u (pet_id a) (p_x pa, BASE_Y, p_z pa)"
  let ?w4 = "?w3\<lparr>w_greets := w_greets ?w3 @ [(pet_id a, pet_id b, t)]\<rparr>"
  have c: "cuddlePile rugs a b pa pb ?w4 (stl g) = Inr (w', g')"
    using assms(1) by (simp add: greet_def Let_def)
  have s: "socialOf w' j = socialOf ?w3 j"
    using cuddlePile_frame[OF c] by (simp add: socialOf_greets_upd)
  note k = callSetSocial_keeps_active
  have "socialOf ?w1 j = Some so" using assms(2) by (simp add: socialOf_cooldown_upd)
  from k[OF this assms(3)] obtain so2 where "socialOf ?w2 j = Some so2" "s_active so2" by blast
  from k[OF this] show ?thesis unfolding s by blast
qed

lemma greetPair_cases:
  assumes "greetPair rugs t a b w g = Inr (w', g')"
  obtains (skip) "w' = w" "g' = g"
  | (greeted) pa pb where "w_api w (pet_id a) \<noteq> None" "w_api w (pet_id b) \<noteq> None"
      "map_of (w_posMap w) (pet_id a) = Some pa" "map_of (w_posMap w) (pet_id b) = Some pb"
      "\<not> chaseInvolved (w_chaseMode w) (pet_id a) (pet_id b)"
      "\<not> t < (case w_pairCooldown w (getPairKey (pet_id a) (pet_id b)) of None \<Rightarrow> 0 | Some u \<Rightarrow> u)"
      "(p_x pa - p_x pb) * (p_x pa - p_x pb) + (p_z pa - p_z pb) * (p_z pa - p_z pb)
         < SOCIAL_DISTANCE * SOCIAL_DISTANCE"
      "greet rugs t a b pa pb w g = Inr (w', g')"
proof (cases "w_api w (pet_id a) = None \<or> w_api w (pet_id b) = None")
  case True
  then have "w' = w \<and> g' = g" using assms by (simp add: greetPair_def)
  then show ?thesis using skip by blast
next
  case api: False
  show ?thesis
  proof (cases "map_of (w_posMap w) (pet_id a)")
    case None
    then have "w' = w \<and> g' = g" using assms api by (simp add: greetPair_def)
    then show ?thesis using skip by blast
  next
    case pa: (Some pa)
    show ?thesis
    proof (cases "map_of (w_posMap w) (pet_id b)")
      case None
      then have "w' = w \<and> g' = g" using assms api pa by (simp add: greetPair_def)
      then show ?thesis using skip by blast
    next
      case pb: (Some pb)
      show ?thesis
      proof (cases "chaseInvolved (w_chaseMode w) (pet_id a) (pet_id b)")
        case True
        then have "w' = w \<and> g' = g" using assms api pa pb by (simp add: greetPair_def)
        then show ?thesis using skip by blast
      next
        case ch: False
        show ?thesis
        proof (cases "t < (case w_pairCooldown w (getPairKey (pet_id a) (pet_id b)) of
                             None \<Rightarrow> 0 | Some u \<Rightarrow> u)")
          case True
          then have "w' = w \<and> g' = g"
            using assms api pa pb ch by (simp add: greetPair_def Let_def)
          then show ?thesis using skip by blast
        next
          case cd: False
          show ?thesis
          proof (cases "(p_x pa - p_x pb) * (p_x pa - p_x pb) + (p_z pa - p_z pb) * (p_z pa - p_z pb)
                          < SOCIAL_DISTANCE * SOCIAL_DISTANCE")
            case True
            then have "greet rugs t a b pa pb w g = Inr (w', g')"
              using assms api pa pb ch cd by (simp add: greetPair_def Let_def)
            then show ?thesis using greeted api pa pb ch cd True by blast
          next
            case False
            then have "w' = w \<and> g' = g"
              using assms api pa pb ch cd by (simp add: greetPair_def Let_def)
            then show ?thesis using skip by blast
          qed
        qed
      qed
    qed
  qed
qed

text \<open>A relation between worlds that holds across every pair iteration holds across the scan.\<close>

lemma scanInner_lift:
  assumes refl: "\<And>w. P w w"
    and trans: "\<And>w1 w2 w3. P w1 w2 \<Longrightarrow> P w2 w3 \<Longrightarrow> P w1 w3"
    and step: "\<And>a b w g w' g'. greetPair rugs t a b w g = Inr (w', g') \<Longrightarrow> P w w'"
  shows "scanInner rugs t a bs w g = Inr (w', g') \<Longrightarrow> P w w'"
proof (induction bs arbitrary: w g)
  case Nil
  then show ?case using refl by simp
next
  case (Cons b bs)
  from Cons.prems obtain w1 g1 where
    p: "greetPair rugs t a b w g = Inr (w1, g1)" and r: "scanInner rugs t a bs w1 g1 = Inr (w', g')"
    by (auto split: sum.splits)
  show ?case using trans[OF step[OF p] Cons.IH[OF r]] .
qed

lemma scanOuter_lift:
  assumes refl: "\<And>w. P w w"
    and trans: "\<And>w1 w2 w3. P w1 w2 \<Longrightarrow> P w2 w3 \<Longrightarrow> P w1 w3"
    and step: "\<And>a b w g w' g'. greetPair rugs t a b w g = Inr (w', g') \<Longrightarrow> P w w'"
  shows "scanOuter rugs t arr w g = Inr (w', g') \<Longrightarrow> P w w'"
proof (induction arr arbitrary: w g)
  case Nil
  then show ?case using refl by simp
next
  case (Cons a rest)
  from Cons.prems obtain w1 g1 where
    p: "scanInner rugs t a rest w g = Inr (w1, g1)" and r: "scanOuter rugs t rest w1 g1 = Inr (w', g')"
    by (auto split: sum.splits)
  have "P w w1" using scanInner_lift[OF refl trans step p] .
  then show ?case using trans Cons.IH[OF r] by blast
qed

lemma chaseKept_refl: "chaseKept i w w"
  by (simp add: chaseKept_def)

lemma chaseKept_trans: "chaseKept i w1 w2 \<Longrightarrow> chaseKept i w2 w3 \<Longrightarrow> chaseKept i w1 w3"
  by (auto simp: chaseKept_def)

lemma chaseKept_step:
  assumes "greetPair rugs t a b w g = Inr (w', g')"
  shows "chaseKept i w w'"
  using assms
proof (cases rule: greetPair_cases)
  case skip
  then show ?thesis by (simp add: chaseKept_def)
next
  case (greeted pa pb)
  note e = greet_effect[OF greeted(8)]
  have "i \<noteq> pet_id a \<and> i \<noteq> pet_id b" if "chaseRole (w_chaseMode w) i"
    using that greeted(5) by (auto simp: chaseRole_def chaseInvolved_def)
  then show ?thesis using e(2) e(4) by (auto simp: chaseKept_def)
qed

lemma scanOuter_chaseKept:
  "scanOuter rugs t arr w g = Inr (w', g') \<Longrightarrow> chaseKept i w w'"
  by (rule scanOuter_lift[where P = "chaseKept i", OF chaseKept_refl chaseKept_trans chaseKept_step])

lemma chaseArbitration_frame:
  assumes "chaseArbitration w t g = Inr (w', g')"
  shows "w_api w' = w_api w \<and> w_pairCooldown w' = w_pairCooldown w \<and> w_greets w' = w_greets w
       \<and> w_pets w' = w_pets w \<and> w_frameCounter w' = w_frameCounter w \<and> w_posMap w' = w_posMap w"
  using assms unfolding chaseArbitration_def
  by (auto split: if_splits sum.splits)

lemma managerFrame_cases:
  assumes "managerFrame rugs t w g = Inr (w', g')"
  obtains w3 g3 where
    "chaseArbitration (w\<lparr>w_frameCounter := w_frameCounter w + 1,
                        w_posMap := snapshot (w\<lparr>w_frameCounter := w_frameCounter w + 1\<rparr>)\<rparr>) t g
       = Inr (w3, g3)"
    and "(w' = w3 \<and> g' = g3) \<or> scanOuter rugs t (w_pets w3) w3 g3 = Inr (w', g')"
  using assms unfolding managerFrame_def Let_def
  by (auto split: sum.splits if_splits)

lemma managerFrame_chase_social:
  assumes "managerFrame rugs t w g = Inr (w', g')" and "chaseRole (w_chaseMode w') i"
  shows "socialOf w' i = socialOf w i"
  using assms(1)
proof (cases rule: managerFrame_cases)
  case (1 w3 g3)
  have a3: "socialOf w3 i = socialOf w i"
    using chaseArbitration_frame[OF 1(1)] by (simp add: socialOf_def)
  from 1(2) show ?thesis
  proof
    assume "w' = w3 \<and> g' = g3"
    then show ?thesis using a3 by simp
  next
    assume "scanOuter rugs t (w_pets w3) w3 g3 = Inr (w', g')"
    then have "chaseKept i w3 w'" by (rule scanOuter_chaseKept)
    then show ?thesis using assms(2) a3 by (simp add: chaseKept_def)
  qed
qed

lemma greetsFrom_refl: "greetsFrom k T w w"
  by (simp add: greetsFrom_def)

lemma greetsFrom_trans:
  assumes "greetsFrom k T w1 w2" "greetsFrom k T w2 w3"
  shows "greetsFrom k T w1 w3"
proof -
  from assms(1) obtain n1 where n1: "w_greets w2 = w_greets w1 @ n1"
    "\<forall>e \<in> set n1. getPairKey (fst e) (fst (snd e)) = k \<longrightarrow> T \<le> snd (snd e)"
    unfolding greetsFrom_def by blast
  from assms(2) obtain n2 where n2: "w_greets w3 = w_greets w2 @ n2"
    "\<forall>e \<in> set n2. getPairKey (fst e) (fst (snd e)) = k \<longrightarrow> T \<le> snd (snd e)"
    unfolding greetsFrom_def by blast
  have "w_greets w3 = w_greets w1 @ (n1 @ n2)" using n1(1) n2(1) by simp
  moreover have "\<forall>e \<in> set (n1 @ n2). getPairKey (fst e) (fst (snd e)) = k \<longrightarrow> T \<le> snd (snd e)"
    using n1(2) n2(2) by auto
  ultimately show ?thesis unfolding greetsFrom_def by blast
qed

lemma cooldownKept_refl: "cooldownKept k T w w"
  by (simp add: cooldownKept_def greetsFrom_refl)

lemma cooldownKept_trans:
  "cooldownKept k T w1 w2 \<Longrightarrow> cooldownKept k T w2 w3 \<Longrightarrow> cooldownKept k T w1 w3"
  unfolding cooldownKept_def using greetsFrom_trans by blast

lemma cooldownKept_step:
  assumes "greetPair rugs t a b w g = Inr (w', g')"
  shows "cooldownKept k T w w'"
  using assms
proof (cases rule: greetPair_cases)
  case skip
  then show ?thesis by (simp add: cooldownKept_refl)
next
  case (greeted pa pb)
  note e = greet_effect[OF greeted(8)]
  show ?thesis unfolding cooldownKept_def
  proof (intro impI conjI)
    assume inv: "cooldownAtLeast k T w"
    then obtain u where u: "w_pairCooldown w k = Some u" "T \<le> u"
      by (auto simp: cooldownAtLeast_def split: option.splits)
    show "cooldownAtLeast k T w'"
    proof (cases "getPairKey (pet_id a) (pet_id b) = k")
      case True
      then have "u \<le> t" using greeted(6) u(1) by simp
      then show ?thesis using True u(2) e(1) by (simp add: cooldownAtLeast_def)
    next
      case False
      then show ?thesis using u e(1) by (simp add: cooldownAtLeast_def)
    qed
    have "getPairKey (pet_id a) (pet_id b) = k \<longrightarrow> T \<le> t"
      using greeted(6) u by auto
    then show "greetsFrom k T w w'"
      unfolding greetsFrom_def using e(3) by simp
  qed
qed

lemma scanInner_cooldownKept:
  "scanInner rugs t a bs w g = Inr (w', g') \<Longrightarrow> cooldownKept k T w w'"
  by (rule scanInner_lift[where P = "cooldownKept k T",
        OF cooldownKept_refl cooldownKept_trans cooldownKept_step])

lemma scanOuter_cooldownKept:
  "scanOuter rugs t arr w g = Inr (w', g') \<Longrightarrow> cooldownKept k T w w'"
  by (rule scanOuter_lift[where P = "cooldownKept k T",
        OF cooldownKept_refl cooldownKept_trans cooldownKept_step])

lemma managerFrame_cooldownKept:
  assumes "managerFrame rugs t w g = Inr (w', g')"
  shows "cooldownKept k T w w'"
  using assms
proof (cases rule: managerFrame_cases)
  case (1 w3 g3)
  have a3: "w_pairCooldown w3 = w_pairCooldown w \<and> w_greets w3 = w_greets w"
    using chaseArbitration_frame[OF 1(1)] by simp
  then have k3: "cooldownKept k T w w3"
    by (simp add: cooldownKept_def cooldownAtLeast_def greetsFrom_def)
  from 1(2) show ?thesis
  proof
    assume "w' = w3 \<and> g' = g3"
    then show ?thesis using k3 by simp
  next
    assume "scanOuter rugs t (w_pets w3) w3 g3 = Inr (w', g')"
    then have "cooldownKept k T w3 w'" by (rule scanOuter_cooldownKept)
    then show ?thesis using k3 cooldownKept_trans by blast
  qed
qed

lemma managerRun_cooldownKept:
  "managerRun rugs ticks w = Inr w' \<Longrightarrow> cooldownKept k T w w'"
proof (induction ticks arbitrary: w)
  case Nil
  then show ?case by (simp add: cooldownKept_refl)
next
  case (Cons tk ticks)
  let ?w0 = "w\<lparr>w_pets := fst (snd tk), w_api := fst (snd (snd tk))\<rparr>"
  from Cons.prems obtain w1 g1 where
    f: "managerFrame rugs (fst tk) ?w0 (snd (snd (snd tk))) = Inr (w1, g1)"
    and r: "managerRun rugs ticks w1 = Inr w'"
    by (auto split: sum.splits)
  have "cooldownKept k T w ?w0"
    by (simp add: cooldownKept_def cooldownAtLeast_def greetsFrom_def)
  moreover have "cooldownKept k T ?w0 w1" using f by (rule managerFrame_cooldownKept)
  moreover have "cooldownKept k T w1 w'" using r by (rule Cons.IH)
  ultimately show ?case using cooldownKept_trans by blast
qed

lemma greetsFrom_pair:
  assumes "greetsFrom (getPairKey ida idb) T w w'"
  shows "noPairGreetBefore ida idb T w w'"
proof -
  from assms obtain new where n: "w_greets w' = w_greets w @ new"
    "\<forall>e \<in> set new. getPairKey (fst e) (fst (snd e)) = getPairKey ida idb \<longrightarrow> T \<le> snd (snd e)"
    unfolding greetsFrom_def by blast
  have "\<forall>e \<in> set new. isPair ida idb e \<longrightarrow> T \<le> snd (snd e)"
    using n(2) getPairKey_commute by (auto simp: isPair_def)
  then show ?thesis unfolding noPairGreetBefore_def using n(1) by blast
qed

lemma chaseRetry_total:
  "pets \<noteq> [] \<Longrightarrow> unit_draws g
     \<Longrightarrow> \<exists>b' g'. chaseRetry pets aid b guard g = Inr (b', g') \<and> unit_draws g'"
proof (induction pets aid b guard g rule: chaseRetry.induct)
  case (1 pets aid b guard g)
  show ?case
  proof (cases "pet_id b = aid \<and> guard < 6")
    case True
    obtain x where x: "pick pets (shd g) = Some x"
      using pick_in_range[OF 1(2)] unit_draws_shd[OF 1(3)] by blast
    have "\<exists>b' g'. chaseRetry pets aid x (Suc guard) (stl g) = Inr (b', g') \<and> unit_draws g'"
      using "1.IH"[OF True x 1(2)] unit_draws_stl[OF 1(3)] by blast
    then show ?thesis using True x by simp
  next
    case False
    then show ?thesis using 1(3) by auto
  qed
qed

lemma drawPair_total:
  assumes "pets \<noteq> []" "unit_draws g"
  shows "\<exists>a b g'. drawPair pets g = Inr (a, b, g') \<and> unit_draws g'"
proof -
  have u1: "unit_draws (stl g)" and u2: "unit_draws (stl (stl g))"
    using assms(2) unit_draws_stl by blast+
  obtain a where a: "pick pets (shd g) = Some a"
    using pick_in_range[OF assms(1)] unit_draws_shd[OF assms(2)] by blast
  obtain b where b: "pick pets (shd (stl g)) = Some b"
    using pick_in_range[OF assms(1)] unit_draws_shd[OF u1] by blast
  obtain b' g' where "chaseRetry pets (pet_id a) b 0 (stl (stl g)) = Inr (b', g')" "unit_draws g'"
    using chaseRetry_total[OF assms(1) u2] by blast
  then show ?thesis using a b by (simp add: drawPair_def)
qed

lemma chaseArbitration_total:
  assumes "unit_draws g"
  shows "\<exists>w' g'. chaseArbitration w t g = Inr (w', g') \<and> unit_draws g'"
proof (cases "c_active (w_chaseMode w)")
  case True
  then show ?thesis using assms by (simp add: chaseArbitration_def)
next
  case False
  show ?thesis
  proof (cases "length (w_pets w) \<ge> 2 \<and> shd g < chaseChancePerS * (1 / 60)")
    case True
    then have ne: "w_pets w \<noteq> []" by auto
    obtain a b g' where "drawPair (w_pets w) (stl g) = Inr (a, b, g')" "unit_draws g'"
      using drawPair_total[OF ne unit_draws_stl[OF assms]] by blast
    then show ?thesis using False True unit_draws_stl
      by (simp add: chaseArbitration_def startChaseBurst_def)
  next
    case f: False
    then show ?thesis using False assms unit_draws_stl
      by (auto simp: chaseArbitration_def startChaseBurst_def)
  qed
qed

lemma cuddlePile_draws:
  assumes "cuddlePile rugs a b pa pb w g = Inr (w', g')" "unit_draws g"
  shows "unit_draws g'"
proof -
  have "unit_draws (stl g)" "unit_draws (stl (stl g))" "unit_draws (stl (stl (stl g)))"
    using assms(2) unit_draws_stl by blast+
  then show ?thesis using assms unfolding cuddlePile_def Let_def
    by (auto split: if_splits option.splits)
qed

lemma greet_total:
  assumes "unit_draws g" "rugs \<noteq> []"
  shows "\<exists>w' g'. greet rugs t a b pa pb w g = Inr (w', g') \<and> unit_draws g'"
proof -
  let ?w4 = "(callSetSocial
               (callSetSocial
                 (w\<lparr>w_pairCooldown := (w_pairCooldown w)(getPairKey (pet_id a) (pet_id b) \<mapsto> t + SOCIAL_COOLDOWN_S)\<rparr>)
                 (pet_id a) (t + (1.05 + shd g * 0.45)) (pet_id b) (p_x pb, BASE_Y, p_z pb))
               (pet_id b) (t + (1.05 + shd g * 0.45)) (pet_id a) (p_x pa, BASE_Y, p_z pa))"
  let ?w5 = "?w4\<lparr>w_greets := w_greets ?w4 @ [(pet_id a, pet_id b, t)]\<rparr>"
  have u: "unit_draws (stl g)" using assms(1) by (rule unit_draws_stl)
  obtain w' g' where c: "cuddlePile rugs a b pa pb ?w5 (stl g) = Inr (w', g')"
    using cuddlePile_total[OF u assms(2)] by blast
  then have "greet rugs t a b pa pb w g = Inr (w', g')" by (simp add: greet_def Let_def)
  then show ?thesis using cuddlePile_draws[OF c u] by blast
qed

lemma greetPair_total:
  assumes "unit_draws g" "rugs \<noteq> []"
  shows "\<exists>w' g'. greetPair rugs t a b w g = Inr (w', g') \<and> unit_draws g'"
  using assms greet_total[OF assms]
  unfolding greetPair_def Let_def by (auto split: option.splits)

lemma scanInner_total:
  assumes "rugs \<noteq> []"
  shows "unit_draws g \<Longrightarrow> \<exists>w' g'. scanInner rugs t a bs w g = Inr (w', g') \<and> unit_draws g'"
proof (induction bs arbitrary: w g)
  case Nil
  then show ?case by simp
next
  case (Cons b bs)
  obtain w1 g1 where p: "greetPair rugs t a b w g = Inr (w1, g1)" "unit_draws g1"
    using greetPair_total[OF Cons.prems assms] by blast
  show ?case using Cons.IH[OF p(2)] p(1) by simp
qed

lemma scanOuter_total:
  assumes "rugs \<noteq> []"
  shows "unit_draws g \<Longrightarrow> \<exists>w' g'. scanOuter rugs t arr w g = Inr (w', g') \<and> unit_draws g'"
proof (induction arr arbitrary: w g)
  case Nil
  then show ?case by simp
next
  case (Cons a rest)
  obtain w1 g1 where p: "scanInner rugs t a rest w g = Inr (w1, g1)" "unit_draws g1"
    using scanInner_total[OF assms Cons.prems] by blast
  show ?case using Cons.IH[OF p(2)] p(1) by simp
qed

lemma managerFrame_total:
  assumes "unit_draws g" "rugs \<noteq> []"
  shows "\<exists>w' g'. managerFrame rugs t w g = Inr (w', g') \<and> unit_draws g'"
proof -
  let ?w2 = "w\<lparr>w_frameCounter := w_frameCounter w + 1,
                w_posMap := snapshot (w\<lparr>w_frameCounter := w_frameCounter w + 1\<rparr>)\<rparr>"
  obtain w3 g3 where c: "chaseArbitration ?w2 t g = Inr (w3, g3)" "unit_draws g3"
    using chaseArbitration_total[OF assms(1)] by blast
  obtain w4 g4 where s: "scanOuter rugs t (w_pets w3) w3 g3 = Inr (w4, g4)" "unit_draws g4"
    using scanOuter_total[OF assms(2) c(2)] by blast
  show ?thesis using c s by (auto simp: managerFrame_def Let_def)
qed

lemma managerRun_total:
  assumes "rugs \<noteq> []"
  shows "(\<forall>k \<in> set ticks. unit_draws (snd (snd (snd k)))) \<Longrightarrow> \<exists>w'. managerRun rugs ticks w = Inr w'"
proof (induction ticks arbitrary: w)
  case Nil
  then show ?case by simp
next
  case (Cons k ticks)
  have "unit_draws (snd (snd (snd k)))" using Cons.prems by simp
  from managerFrame_total[OF this assms]
  obtain w1 g1 where "managerFrame rugs (fst k) (w\<lparr>w_pets := fst (snd k), w_api := fst (snd (snd k))\<rparr>)
             (snd (snd (snd k))) = Inr (w1, g1)" by blast
  moreover obtain w' where "managerRun rugs ticks w1 = Inr w'" using Cons.IH Cons.prems by auto
  ultimately show ?case by simp
qed

lemma readyPair_greets:
  assumes "readyPair w a b t"
  obtains pa pb where "map_of (w_posMap w) (pet_id a) = Some pa" "map_of (w_posMap w) (pet_id b) = Some pb"
    "greetPair rugs t a b w g = greet rugs t a b pa pb w g"
proof -
  from assms obtain pa where pa: "map_of (w_posMap w) (pet_id a) = Some pa"
    by (auto simp: readyPair_def split: option.splits)
  from assms pa obtain pb where pb: "map_of (w_posMap w) (pet_id b) = Some pb"
    by (auto simp: readyPair_def split: option.splits)
  have "greetPair rugs t a b w g = greet rugs t a b pa pb w g"
    using assms pa pb by (auto simp: readyPair_def greetPair_def Let_def)
  then show ?thesis using that pa pb by blast
qed

lemma greetPair_ready_total:
  assumes "readyPair w a b t" "unit_draws g" "rugs \<noteq> []"
  shows "\<exists>w' g'. greetPair rugs t a b w g = Inr (w', g')"
  using greetPair_total[OF assms(2,3)] by blast

lemma greetPair_ready_result:
  assumes r: "readyPair w a b t" and d: "0 \<le> shd g" "shd g < 1"
    and p: "greetPair rugs t a b w g = Inr (w', g')"
  shows "greetedPair w' (pet_id a) (pet_id b) t"
proof -
  let ?u = "t + (1.05 + shd g * 0.45)"
  from r obtain pa pb where "greetPair rugs t a b w g = greet rugs t a b pa pb w g"
    by (rule readyPair_greets)
  then have gr: "greet rugs t a b pa pb w g = Inr (w', g')" using p by simp
  note e = greet_effect[OF gr]
  have ne: "pet_id a \<noteq> pet_id b" using r by (simp add: readyPair_def)
  obtain sa where sa: "w_api w (pet_id a) = Some sa" using r by (auto simp: readyPair_def)
  obtain sb where sb: "w_api w (pet_id b) = Some sb" using r by (auto simp: readyPair_def)
  have soa: "socialOf w' (pet_id a) =
      Some (ps_social (setSocial sa True ?u (Some (pet_id b)) (Some (p_x pb, BASE_Y, p_z pb))))"
    using e(6)[OF ne] sa by simp
  have sob: "socialOf w' (pet_id b) =
      Some (ps_social (setSocial sb True ?u (Some (pet_id a)) (Some (p_x pa, BASE_Y, p_z pa))))"
    using e(5) sb ne by (simp add: callSetSocial_api)
  have "t + 1.05 \<le> ?u" using d(1) by simp
  moreover have "?u < t + 1.5" using d(2) by simp
  ultimately show ?thesis
    unfolding greetedPair_def soa sob using setSocial_social by simp
qed

lemma activeIn_step:
  assumes "greetPair rugs t a b w g = Inr (w', g')"
  shows "activeIn w i \<longrightarrow> activeIn w' i"
  using assms
proof (cases rule: greetPair_cases)
  case skip
  then show ?thesis by simp
next
  case (greeted pa pb)
  show ?thesis
  proof
    assume "activeIn w i"
    then obtain so where "socialOf w i = Some so" "s_active so"
      by (auto simp: activeIn_def split: option.splits)
    from greet_keeps_active[OF greeted(8) this] show "activeIn w' i"
      by (auto simp: activeIn_def)
  qed
qed

lemma scanInner_activeIn:
  "scanInner rugs t a bs w g = Inr (w', g') \<Longrightarrow> activeIn w i \<longrightarrow> activeIn w' i"
  by (rule scanInner_lift[where P = "\<lambda>w w'. activeIn w i \<longrightarrow> activeIn w' i"])
     (auto dest: activeIn_step)

lemma scanOuter_activeIn:
  "scanOuter rugs t arr w g = Inr (w', g') \<Longrightarrow> activeIn w i \<longrightarrow> activeIn w' i"
  by (rule scanOuter_lift[where P = "\<lambda>w w'. activeIn w i \<longrightarrow> activeIn w' i"])
     (auto dest: activeIn_step)

text \<open>A frame of a roster of two, on a scan tick without a chase.\<close>

lemma managerFrame_two:
  assumes "w_pets w = [a, b]" and "(w_frameCounter w + 1) mod SOCIAL_CHECK_EVERY_FRAMES = 0"
    and "\<not> c_active (w_chaseMode w)" and "chaseChancePerS * (1 / 60) \<le> shd g"
  shows "managerFrame rugs t w g =
           greetPair rugs t a b
             (w\<lparr>w_frameCounter := w_frameCounter w + 1,
                w_posMap := snapshot (w\<lparr>w_frameCounter := w_frameCounter w + 1\<rparr>)\<rparr>) (stl g)"
proof -
  let ?w2 = "w\<lparr>w_frameCounter := w_frameCounter w + 1,
                w_posMap := snapshot (w\<lparr>w_frameCounter := w_frameCounter w + 1\<rparr>)\<rparr>"
  have c: "chaseArbitration ?w2 t g = Inr (?w2, stl g)"
    using assms(1,3,4) by (simp add: chaseArbitration_def startChaseBurst_def)
  have "scanOuter rugs t [a, b] ?w2 (stl g) = greetPair rugs t a b ?w2 (stl g)"
    by (cases "greetPair rugs t a b ?w2 (stl g)") (auto split: sum.splits)
  then show ?thesis using c assms(1,2) by (simp add: managerFrame_def Let_def)
qed

lemma snapshot_counter: "snapshot (w\<lparr>w_frameCounter := n\<rparr>) = snapshot w"
  by (simp add: snapshot_def)

lemma readyPair_counter:
  "readyPair (w\<lparr>w_frameCounter := n, w_posMap := pm\<rparr>) a b t = readyPair (w\<lparr>w_posMap := pm\<rparr>) a b t"
  by (simp add: readyPair_def split: option.splits)

lemma scanPairs_append:
  "scanPairs rugs t (ps @ qs) w g =
     (case scanPairs rugs t ps w g of Inl e \<Rightarrow> Inl e | Inr (w1, g1) \<Rightarrow> scanPairs rugs t qs w1 g1)"
  by (induction ps arbitrary: w g) (auto split: sum.splits)

lemma scanInner_pairs: "scanInner rugs t a bs w g = scanPairs rugs t (map (Pair a) bs) w g"
  by (induction bs arbitrary: w g) (auto split: sum.splits)

lemma scanOuter_pairs: "scanOuter rugs t arr w g = scanPairs rugs t (allPairs arr) w g"
  by (induction arr arbitrary: w g) (auto simp: scanPairs_append scanInner_pairs split: sum.splits)

lemma greetPair_draws:
  assumes "greetPair rugs t a b w g = Inr (w', g')" "unit_draws g"
  shows "unit_draws g'"
  using assms(1)
proof (cases rule: greetPair_cases)
  case skip
  then show ?thesis using assms(2) by simp
next
  case (greeted pa pb)
  let ?u = "t + (1.05 + shd g * 0.45)"
  let ?w1 = "w\<lparr>w_pairCooldown := (w_pairCooldown w)(getPairKey (pet_id a) (pet_id b) \<mapsto> t + SOCIAL_COOLDOWN_S)\<rparr>"
  let ?w2 = "callSetSocial ?w1 (pet_id a) ?u (pet_id b) (p_x pb, BASE_Y, p_z pb)"
  let ?w3 = "callSetSocial ?w2 (pet_id b) ?u (pet_id a) (p_x pa, BASE_Y, p_z pa)"
  let ?w4 = "?w3\<lparr>w_greets := w_greets ?w3 @ [(pet_id a, pet_id b, t)]\<rparr>"
  have c: "cuddlePile rugs a b pa pb ?w4 (stl g) = Inr (w', g')"
    using greeted(8) by (simp add: greet_def Let_def)
  show ?thesis using cuddlePile_draws[OF c unit_draws_stl[OF assms(2)]] .
qed

text \<open>What an iteration leaves alone in any case.\<close>

lemma cuddlePile_api_dom:
  assumes "cuddlePile rugs a b pa pb w g = Inr (w', g')"
  shows "(w_api w' j = None) = (w_api w j = None) \<and> w_posMap w' = w_posMap w"
  using assms unfolding cuddlePile_def Let_def
  by (auto split: if_splits option.splits simp: callNudge_def)

lemma greetPair_frame:
  assumes "greetPair rugs t a b w g = Inr (w', g')"
  shows "w_posMap w' = w_posMap w \<and> w_chaseMode w' = w_chaseMode w
       \<and> ((w_api w' j = None) = (w_api w j = None))"
  using assms
proof (cases rule: greetPair_cases)
  case skip
  then show ?thesis by simp
next
  case (greeted pa pb)
  let ?u = "t + (1.05 + shd g * 0.45)"
  let ?w1 = "w\<lparr>w_pairCooldown := (w_pairCooldown w)(getPairKey (pet_id a) (pet_id b) \<mapsto> t + SOCIAL_COOLDOWN_S)\<rparr>"
  let ?w2 = "callSetSocial ?w1 (pet_id a) ?u (pet_id b) (p_x pb, BASE_Y, p_z pb)"
  let ?w3 = "callSetSocial ?w2 (pet_id b) ?u (pet_id a) (p_x pa, BASE_Y, p_z pa)"
  let ?w4 = "?w3\<lparr>w_greets := w_greets ?w3 @ [(pet_id a, pet_id b, t)]\<rparr>"
  have c: "cuddlePile rugs a b pa pb ?w4 (stl g) = Inr (w', g')"
    using greeted(8) by (simp add: greet_def Let_def)
  have "(w_api ?w4 j = None) = (w_api w j = None)"
    by (simp add: callSetSocial_api)
  then show ?thesis
    using cuddlePile_api_dom[OF c, of j] greet_effect(2)[OF greeted(8)] by simp
qed

lemma aloof_step_ready:
  assumes p: "greetPair rugs t (fst p) (snd p) w g = Inr (w', g')"
    and al: "aloof (w_posMap w) (pet_id a) (pet_id b) p"
    and r: "readyPair w a b t"
  shows "readyPair w' a b t"
  using p
proof (cases rule: greetPair_cases)
  case skip
  then show ?thesis using r by simp
next
  case (greeted px py)
  have far: "pet_id (fst p) \<noteq> pet_id a \<and> pet_id (fst p) \<noteq> pet_id b
      \<and> pet_id (snd p) \<noteq> pet_id a \<and> pet_id (snd p) \<noteq> pet_id b
      \<and> getPairKey (pet_id (fst p)) (pet_id (snd p)) \<noteq> getPairKey (pet_id a) (pet_id b)"
    using al greeted(3,4,7) by (auto simp: aloof_def)
  note e = greet_effect[OF greeted(8)]
  note f = greetPair_frame[OF p]
  have cd: "w_pairCooldown w' (getPairKey (pet_id a) (pet_id b))
      = w_pairCooldown w (getPairKey (pet_id a) (pet_id b))"
    using e(1) far by auto
  show ?thesis
    using r f[of "pet_id a"] f[of "pet_id b"] cd unfolding readyPair_def
    by (auto split: option.splits)
qed

lemma aloof_step_greeted:
  assumes p: "greetPair rugs t (fst p) (snd p) w g = Inr (w', g')"
    and al: "aloof (w_posMap w) ida idb p"
    and r: "greetedPair w ida idb t0"
  shows "greetedPair w' ida idb t0"
  using p
proof (cases rule: greetPair_cases)
  case skip
  then show ?thesis using r by simp
next
  case (greeted px py)
  have far: "pet_id (fst p) \<noteq> ida \<and> pet_id (fst p) \<noteq> idb
      \<and> pet_id (snd p) \<noteq> ida \<and> pet_id (snd p) \<noteq> idb"
    using al greeted(3,4,7) by (auto simp: aloof_def)
  note e = greet_effect[OF greeted(8)]
  have "socialOf w' ida = socialOf w ida" "socialOf w' idb = socialOf w idb"
    using e(4)[of ida] e(4)[of idb] far by auto
  then show ?thesis using r by (auto simp: greetedPair_def split: option.splits)
qed

lemma scanPairs_aloof_greeted:
  "scanPairs rugs t ps w g = Inr (w', g') \<Longrightarrow> \<forall>p \<in> set ps. aloof (w_posMap w) ida idb p
     \<Longrightarrow> greetedPair w ida idb t0 \<Longrightarrow> greetedPair w' ida idb t0"
proof (induction ps arbitrary: w g)
  case Nil
  then show ?case by simp
next
  case (Cons p ps)
  from Cons.prems(1) obtain w1 g1 where
    s: "greetPair rugs t (fst p) (snd p) w g = Inr (w1, g1)" and r: "scanPairs rugs t ps w1 g1 = Inr (w', g')"
    by (auto split: sum.splits)
  have pm: "w_posMap w1 = w_posMap w" using greetPair_frame[OF s] by simp
  have g1: "greetedPair w1 ida idb t0"
    using aloof_step_greeted[OF s _ Cons.prems(3)] Cons.prems(2) by simp
  show ?case using Cons.IH[OF r _ g1] Cons.prems(2) pm by simp
qed

lemma scanPairs_aloof_ready:
  "scanPairs rugs t ps w g = Inr (w', g') \<Longrightarrow> \<forall>p \<in> set ps. aloof (w_posMap w) (pet_id a) (pet_id b) p
     \<Longrightarrow> readyPair w a b t \<Longrightarrow> unit_draws g
     \<Longrightarrow> readyPair w' a b t \<and> w_posMap w' = w_posMap w \<and> unit_draws g'"
proof (induction ps arbitrary: w g)
  case Nil
  then show ?case by simp
next
  case (Cons p ps)
  from Cons.prems(1) obtain w1 g1 where
    s: "greetPair rugs t (fst p) (snd p) w g = Inr (w1, g1)" and r: "scanPairs rugs t ps w1 g1 = Inr (w', g')"
    by (auto split: sum.splits)
  have pm: "w_posMap w1 = w_posMap w" using greetPair_frame[OF s] by simp
  have r1: "readyPair w1 a b t"
    using aloof_step_ready[OF s _ Cons.prems(3)] Cons.prems(2) by simp
  have u1: "unit_draws g1" using greetPair_draws[OF s Cons.prems(4)] .
  show ?case using Cons.IH[OF r _ r1 u1] Cons.prems(2) pm by simp
qed

text \<open>A scan in which every other pair is aloof from the ready pair \<open>(a, b)\<close>.\<close>

lemma scanOuter_ready_pair:
  assumes sc: "scanOuter rugs t arr w g = Inr (w', g')"
    and ap: "allPairs arr = ps1 @ (a, b) # ps2"
    and al: "\<forall>p \<in> set ps1 \<union> set ps2. aloof (w_posMap w) (pet_id a) (pet_id b) p"
    and r: "readyPair w a b t" and u: "unit_draws g"
  shows "greetedPair w' (pet_id a) (pet_id b) t"
proof -
  have "scanPairs rugs t (ps1 @ (a, b) # ps2) w g = Inr (w', g')"
    using sc ap by (simp add: scanOuter_pairs)
  then obtain w1 g1 where s1: "scanPairs rugs t ps1 w g = Inr (w1, g1)"
    and s2: "scanPairs rugs t ((a, b) # ps2) w1 g1 = Inr (w', g')"
    by (auto simp: scanPairs_append split: sum.splits)
  from s2 obtain w2 g2 where p: "greetPair rugs t a b w1 g1 = Inr (w2, g2)"
    and s3: "scanPairs rugs t ps2 w2 g2 = Inr (w', g')"
    by (auto split: sum.splits)
  have a1: "\<forall>p \<in> set ps1. aloof (w_posMap w) (pet_id a) (pet_id b) p" using al by simp
  from scanPairs_aloof_ready[OF s1 a1 r u]
  have r1: "readyPair w1 a b t" and pm1: "w_posMap w1 = w_posMap w" and u1: "unit_draws g1"
    by simp_all
  have d: "0 \<le> shd g1" "shd g1 < 1" using unit_draws_shd[OF u1] by simp_all
  have g2: "greetedPair w2 (pet_id a) (pet_id b) t"
    using greetPair_ready_result[OF r1 d p] .
  have pm2: "w_posMap w2 = w_posMap w" using greetPair_frame[OF p] pm1 by simp
  have a2: "\<forall>p \<in> set ps2. aloof (w_posMap w2) (pet_id a) (pet_id b) p" using al pm2 by simp
  show ?thesis using scanPairs_aloof_greeted[OF s3 a2 g2] .
qed

text \<open>
  Claim C7, amended. When the scan reaches a pair that is ready (two distinct mounted agents,
  closer than \<open>2.0\<close> in the snapshot, neither with a chase role, no unexpired cooldown), the
  iteration returns and leaves both agents socially active, each naming the other as partner,
  with one shared \<open>until\<close> in \<open>[t + 1.05, t + 1.5)\<close>. If the pair is ready when the scan
  starts and every other pair of the roster is aloof from the two (not within the greet
  distance, or involving neither of them), the two agents are in that state when the scan
  ends. In any case later iterations keep an active agent active, though they may overwrite
  its partner and \<open>until\<close>. In a roster of exactly these two agents, on a scan tick with no
  episode active or started, the state after the whole frame has the two agents active with
  mutual partners and equal \<open>until\<close>.
\<close>

theorem greet_activates_pair:
  "(readyPair w a b t \<and> unit_draws g \<and> rugs \<noteq> []
      \<longrightarrow> (\<exists>w1 g1. greetPair rugs t a b w g = Inr (w1, g1)))
   \<and> (readyPair w a b t \<and> 0 \<le> shd g \<and> shd g < 1 \<and> greetPair rugs t a b w g = Inr (w', g')
      \<longrightarrow> greetedPair w' (pet_id a) (pet_id b) t)
   \<and> (readyPair w a b t \<and> unit_draws g \<and> allPairs arr = ps1 @ (a, b) # ps2
        \<and> (\<forall>p \<in> set ps1 \<union> set ps2. aloof (w_posMap w) (pet_id a) (pet_id b) p)
        \<and> scanOuter rugs t arr w g = Inr (w', g')
      \<longrightarrow> greetedPair w' (pet_id a) (pet_id b) t)
   \<and> (activeIn w i \<and> scanInner rugs t x bs w g = Inr (w', g') \<longrightarrow> activeIn w' i)
   \<and> (activeIn w i \<and> scanOuter rugs t arr w g = Inr (w', g') \<longrightarrow> activeIn w' i)
   \<and> (w_pets w = [a, b] \<and> (w_frameCounter w + 1) mod SOCIAL_CHECK_EVERY_FRAMES = 0
        \<and> \<not> c_active (w_chaseMode w) \<and> chaseChancePerS * (1 / 60) \<le> shd g
        \<and> readyPair (w\<lparr>w_posMap := snapshot w\<rparr>) a b t
        \<and> 0 \<le> shd (stl g) \<and> shd (stl g) < 1
        \<and> managerFrame rugs t w g = Inr (w', g')
      \<longrightarrow> greetedPair w' (pet_id a) (pet_id b) t)"
proof (intro conjI impI)
  assume "readyPair w a b t \<and> unit_draws g \<and> rugs \<noteq> []"
  then show "\<exists>w1 g1. greetPair rugs t a b w g = Inr (w1, g1)"
    using greetPair_ready_total by blast
next
  assume "readyPair w a b t \<and> 0 \<le> shd g \<and> shd g < 1 \<and> greetPair rugs t a b w g = Inr (w', g')"
  then show "greetedPair w' (pet_id a) (pet_id b) t"
    using greetPair_ready_result by blast
next
  assume h: "readyPair w a b t \<and> unit_draws g \<and> allPairs arr = ps1 @ (a, b) # ps2
        \<and> (\<forall>p \<in> set ps1 \<union> set ps2. aloof (w_posMap w) (pet_id a) (pet_id b) p)
        \<and> scanOuter rugs t arr w g = Inr (w', g')"
  show "greetedPair w' (pet_id a) (pet_id b) t"
    by (rule scanOuter_ready_pair[of rugs t arr w g w' g' ps1 a b ps2]) (use h in simp_all)
next
  assume "activeIn w i \<and> scanInner rugs t x bs w g = Inr (w', g')"
  then show "activeIn w' i" using scanInner_activeIn by blast
next
  assume "activeIn w i \<and> scanOuter rugs t arr w g = Inr (w', g')"
  then show "activeIn w' i" using scanOuter_activeIn by blast
next
  let ?w2 = "w\<lparr>w_frameCounter := w_frameCounter w + 1,
                w_posMap := snapshot (w\<lparr>w_frameCounter := w_frameCounter w + 1\<rparr>)\<rparr>"
  assume h: "w_pets w = [a, b] \<and> (w_frameCounter w + 1) mod SOCIAL_CHECK_EVERY_FRAMES = 0
        \<and> \<not> c_active (w_chaseMode w) \<and> chaseChancePerS * (1 / 60) \<le> shd g
        \<and> readyPair (w\<lparr>w_posMap := snapshot w\<rparr>) a b t
        \<and> 0 \<le> shd (stl g) \<and> shd (stl g) < 1
        \<and> managerFrame rugs t w g = Inr (w', g')"
  then have "managerFrame rugs t w g = greetPair rugs t a b ?w2 (stl g)"
    by (intro managerFrame_two) simp_all
  then have p: "greetPair rugs t a b ?w2 (stl g) = Inr (w', g')" using h by simp
  have r: "readyPair ?w2 a b t" using h by (simp add: snapshot_counter readyPair_counter)
  show "greetedPair w' (pet_id a) (pet_id b) t"
    using greetPair_ready_result[OF r _ _ p] h by blast
qed

text \<open>
  Claim C7 as stated fails with a third agent. Three mounted pets within \<open>2.0\<close> of one another
  on a scan tick: the pair \<open>(pet_a, pet_b)\<close> is ready, yet after the frame \<open>pet_a\<close> and
  \<open>pet_b\<close> both name \<open>pet_c\<close> as partner and their \<open>until\<close> differ, because the later
  iterations \<open>(pet_a, pet_c)\<close> and \<open>(pet_b, pet_c)\<close> overwrite what the first one set.
\<close>

theorem greet_overwritten_counterexample:
  "readyPair ((mountedWorld [pet_A, pet_B, pet_C] 29)
                \<lparr>w_posMap := snapshot (mountedWorld [pet_A, pet_B, pet_C] 29)\<rparr>) pet_A pet_B (1 / 2)
   \<and> (case managerFrame gardenRugs (1 / 2) (mountedWorld [pet_A, pet_B, pet_C] 29)
             ([1 / 2, 0, 1 / 2, 1 / 4] @- sconst 0) of
        Inl e \<Rightarrow> False
      | Inr (w', g') \<Rightarrow>
          \<not> greetedPair w' ''pet_a'' ''pet_b'' (1 / 2)
          \<and> map_option s_partnerId (socialOf w' ''pet_a'') = Some (Some ''pet_c'')
          \<and> map_option s_partnerId (socialOf w' ''pet_b'') = Some (Some ''pet_c'')
          \<and> map_option s_until (socialOf w' ''pet_a'') = Some (1 / 2 + 1.275)
          \<and> map_option s_until (socialOf w' ''pet_b'') = Some (1 / 2 + 1.1625))"
  by (simp add: frame_eval readyPair_def greetedPair_def socialOf_def pet_A_def pet_B_def pet_C_def)

text \<open>
  Claim C7, amended, at an input: the frame at \<open>t = 0.5\<close> of a roster of two pets \<open>1.5\<close>
  apart with the frame counter at \<open>29\<close>.
\<close>

theorem greet_activates_pair_witness:
  "\<exists>w' g'. managerFrame gardenRugs (1 / 2)
             (mountedWorld [mkPet ''pet_a'' (0, 0), mkPet ''pet_b'' (1.5, 0)] 29) (sconst (1 / 2))
           = Inr (w', g')
      \<and> greetedPair w' ''pet_a'' ''pet_b'' (1 / 2)"
proof -
  let ?a = "mkPet ''pet_a'' (0, 0)" and ?b = "mkPet ''pet_b'' (1.5, 0)"
  let ?w = "mountedWorld [?a, ?b] 29"
  obtain w' g' where e: "managerFrame gardenRugs (1 / 2) ?w (sconst (1 / 2)) = Inr (w', g')"
    using managerFrame_total[OF unit_draws_half gardenRugs_nonempty] by blast
  have h1: "w_pets ?w = [?a, ?b]" by (simp add: mountedWorld_def)
  have h2: "(w_frameCounter ?w + 1) mod SOCIAL_CHECK_EVERY_FRAMES = 0"
    by (simp add: mountedWorld_def SOCIAL_CHECK_EVERY_FRAMES_def)
  have h3: "\<not> c_active (w_chaseMode ?w)" by (simp add: mountedWorld_def createChaseMode_def)
  have h4: "chaseChancePerS * (1 / 60) \<le> shd (sconst (1 / 2))" by (simp add: chaseChancePerS_def)
  have h5: "readyPair (?w\<lparr>w_posMap := snapshot ?w\<rparr>) ?a ?b (1 / 2)"
    by (simp add: frame_eval readyPair_def)
  note t5 = greet_activates_pair [where w = ?w and a = ?a and b = ?b and t = "1 / 2"
      and g = "sconst (1 / 2)" and rugs = gardenRugs and w' = w' and g' = g',
      THEN conjunct2, THEN conjunct2, THEN conjunct2, THEN conjunct2, THEN conjunct2]
  have "greetedPair w' (pet_id ?a) (pet_id ?b) (1 / 2)"
  proof (rule t5[THEN mp], intro conjI)
    show "0 \<le> shd (stl (sconst (1 / 2 :: real)))" by simp
    show "shd (stl (sconst (1 / 2 :: real))) < 1" by simp
  qed (rule h1 h2 h3 h4 h5 e)+
  then have "greetedPair w' ''pet_a'' ''pet_b'' (1 / 2)" by (simp add: mkPet_def)
  with e show ?thesis by blast
qed

text \<open>
  Claim C1, amended. A frame of the manager never changes the social state of an agent that is
  the chaser or the runner of the episode active after that frame's chase arbitration: the
  proximity scan skips every pair with such an agent. (The start of a chase does not look at
  social states.)
\<close>

theorem scan_spares_chase_roles:
  assumes "managerFrame rugs t w g = Inr (w', g')" and "chaseRole (w_chaseMode w') i"
  shows "socialOf w' i = socialOf w i"
  using assms by (rule managerFrame_chase_social)

text \<open>
  Claim C1 as stated fails. Two mounted pets \<open>1.5\<close> apart, frame counter \<open>29\<close>, no episode: the
  frame at \<open>t = 0.5\<close> is a scan tick and greets the pair (social states active until \<open>1.55\<close>);
  in the next frame, at \<open>t = 0.5 + 1/60\<close>, the chase draw succeeds and picks \<open>pet_a\<close> as chaser
  and \<open>pet_b\<close> as runner while both are still socially active. Between the two frames a pet's
  own frame leaves an unexpired social state as it is.
\<close>

theorem chase_social_counterexample:
  "(case managerFrame gardenRugs (1 / 2)
           (mountedWorld [mkPet ''pet_a'' (0, 0), mkPet ''pet_b'' (1.5, 0)] 29)
           ([1 / 2, 0, 0, 0, 1 / 2, 0] @- sconst 0) of
      Inl e \<Rightarrow> False
    | Inr (w1, g1) \<Rightarrow>
        chaseSocialExclusive w1 \<and>
        (case managerFrame gardenRugs (1 / 2 + 1 / 60) w1 g1 of
           Inl e \<Rightarrow> False
         | Inr (w2, g2) \<Rightarrow>
             c_active (w_chaseMode w2) \<and> c_chaserId (w_chaseMode w2) = Some ''pet_a''
             \<and> c_runnerId (w_chaseMode w2) = Some ''pet_b''
             \<and> activeIn w2 ''pet_a'' \<and> activeIn w2 ''pet_b''
             \<and> \<not> chaseSocialExclusive w2))"
  by (simp add: frame_eval chaseSocialExclusive_def chaseRole_def socialOf_def activeIn_def) blast

text \<open>
  Claim C1, amended, at an input: a scan tick during an episode between two pets \<open>1.5\<close> apart.
\<close>

theorem scan_spares_chase_roles_witness:
  "\<exists>w' g'. managerFrame gardenRugs (1 / 2) chasingWorld (sconst (1 / 2)) = Inr (w', g')
      \<and> chaseRole (w_chaseMode w') ''pet_a''
      \<and> socialOf w' ''pet_a'' = socialOf chasingWorld ''pet_a''"
proof -
  obtain w' g' where e: "managerFrame gardenRugs (1 / 2) chasingWorld (sconst (1 / 2)) = Inr (w', g')"
    using managerFrame_total[OF unit_draws_half gardenRugs_nonempty] by blast
  then have r: "chaseRole (w_chaseMode w') ''pet_a''"
    by (auto simp: chasingWorld_def frame_eval updateChaseMode_def chaseRole_def)
  from scan_spares_chase_roles[OF e r] e r show ?thesis by blast
qed

text \<open>
  Claim C5. The key of a pair does not depend on the order of the two ids. A greeting at
  \<open>t0\<close> records \<open>t0 + 10\<close> under the key of the pair and logs the greeting. From any state in
  which the cooldown under the key of \<open>(A, B)\<close> ends no earlier than \<open>T\<close>, the rest of a scan
  and any run of manager frames keep such a cooldown and add no greeting of the unordered pair
  at a time before \<open>T\<close>; with \<open>T = t0 + 10\<close>, none at any \<open>t\<close> with \<open>t0 \<le> t < t0 + 10\<close>. A pair
  with no entry is not held back at any time \<open>t \<ge> 0\<close>: the scan greets it when the other
  conditions hold.
\<close>

theorem pair_cooldown:
  "getPairKey ida idb = getPairKey idb ida
   \<and> (greet rugs t0 a b pa pb w g = Inr (w', g')
      \<longrightarrow> w_pairCooldown w' (getPairKey (pet_id a) (pet_id b)) = Some (t0 + 10)
          \<and> w_greets w' = w_greets w @ [(pet_id a, pet_id b, t0)]
          \<and> cooldownAtLeast (getPairKey (pet_id a) (pet_id b)) (t0 + 10) w')
   \<and> (cooldownAtLeast (getPairKey ida idb) T w \<and> scanInner rugs t x bs w g = Inr (w', g')
      \<longrightarrow> cooldownAtLeast (getPairKey ida idb) T w' \<and> noPairGreetBefore ida idb T w w')
   \<and> (cooldownAtLeast (getPairKey ida idb) T w \<and> scanOuter rugs t arr w g = Inr (w', g')
      \<longrightarrow> cooldownAtLeast (getPairKey ida idb) T w' \<and> noPairGreetBefore ida idb T w w')
   \<and> (cooldownAtLeast (getPairKey ida idb) T w \<and> managerRun rugs ticks w = Inr w2
      \<longrightarrow> cooldownAtLeast (getPairKey ida idb) T w2 \<and> noPairGreetBefore ida idb T w w2)
   \<and> (w_pairCooldown w (getPairKey (pet_id a) (pet_id b)) = None \<and> 0 \<le> t
        \<and> w_api w (pet_id a) \<noteq> None \<and> w_api w (pet_id b) \<noteq> None
        \<and> map_of (w_posMap w) (pet_id a) = Some pa \<and> map_of (w_posMap w) (pet_id b) = Some pb
        \<and> \<not> chaseInvolved (w_chaseMode w) (pet_id a) (pet_id b)
        \<and> (p_x pa - p_x pb) * (p_x pa - p_x pb) + (p_z pa - p_z pb) * (p_z pa - p_z pb)
             < SOCIAL_DISTANCE * SOCIAL_DISTANCE
      \<longrightarrow> greetPair rugs t a b w g = greet rugs t a b pa pb w g)"
proof (intro conjI impI)
  show "getPairKey ida idb = getPairKey idb ida" by (rule getPairKey_commute)
next
  assume h: "greet rugs t0 a b pa pb w g = Inr (w', g')"
  note e = greet_effect[OF h]
  show "w_pairCooldown w' (getPairKey (pet_id a) (pet_id b)) = Some (t0 + 10)"
    using e(1) by simp
  show "w_greets w' = w_greets w @ [(pet_id a, pet_id b, t0)]" using e(3) .
  show "cooldownAtLeast (getPairKey (pet_id a) (pet_id b)) (t0 + 10) w'"
    using e(1) by (simp add: cooldownAtLeast_def)
next
  assume h: "cooldownAtLeast (getPairKey ida idb) T w \<and> scanInner rugs t x bs w g = Inr (w', g')"
  then have k: "cooldownKept (getPairKey ida idb) T w w'" using scanInner_cooldownKept by blast
  show "cooldownAtLeast (getPairKey ida idb) T w'" using h k by (simp add: cooldownKept_def)
  show "noPairGreetBefore ida idb T w w'"
    using h k greetsFrom_pair by (simp add: cooldownKept_def)
next
  assume h: "cooldownAtLeast (getPairKey ida idb) T w \<and> scanOuter rugs t arr w g = Inr (w', g')"
  then have k: "cooldownKept (getPairKey ida idb) T w w'" using scanOuter_cooldownKept by blast
  show "cooldownAtLeast (getPairKey ida idb) T w'" using h k by (simp add: cooldownKept_def)
  show "noPairGreetBefore ida idb T w w'"
    using h k greetsFrom_pair by (simp add: cooldownKept_def)
next
  assume h: "cooldownAtLeast (getPairKey ida idb) T w \<and> managerRun rugs ticks w = Inr w2"
  then have k: "cooldownKept (getPairKey ida idb) T w w2" using managerRun_cooldownKept by blast
  show "cooldownAtLeast (getPairKey ida idb) T w2" using h k by (simp add: cooldownKept_def)
  show "noPairGreetBefore ida idb T w w2"
    using h k greetsFrom_pair by (simp add: cooldownKept_def)
next
  assume "w_pairCooldown w (getPairKey (pet_id a) (pet_id b)) = None \<and> 0 \<le> t
        \<and> w_api w (pet_id a) \<noteq> None \<and> w_api w (pet_id b) \<noteq> None
        \<and> map_of (w_posMap w) (pet_id a) = Some pa \<and> map_of (w_posMap w) (pet_id b) = Some pb
        \<and> \<not> chaseInvolved (w_chaseMode w) (pet_id a) (pet_id b)
        \<and> (p_x pa - p_x pb) * (p_x pa - p_x pb) + (p_z pa - p_z pb) * (p_z pa - p_z pb)
             < SOCIAL_DISTANCE * SOCIAL_DISTANCE"
  then show "greetPair rugs t a b w g = greet rugs t a b pa pb w g"
    by (auto simp: greetPair_def Let_def)
qed

text \<open>
  Claim C5 at inputs: the greeting of two pets at \<open>t0 = 0.5\<close> records \<open>10.5\<close>; from a state
  with that cooldown, two frames around \<open>t = 5\<close> (the first a scan tick, the pets \<open>1.5\<close>
  apart) add no greeting of the pair.
\<close>

theorem pair_cooldown_witness:
  "(\<exists>w1 g1. greet gardenRugs (1 / 2) (mkPet ''pet_a'' (0, 0)) (mkPet ''pet_b'' (1.5, 0))
               (getPose (mkPet ''pet_a'' (0, 0)) (initPetState (petProps (mkPet ''pet_a'' (0, 0)))))
               (getPose (mkPet ''pet_b'' (1.5, 0)) (initPetState (petProps (mkPet ''pet_b'' (1.5, 0)))))
               (mountedWorld [mkPet ''pet_a'' (0, 0), mkPet ''pet_b'' (1.5, 0)] 29) (sconst 0)
             = Inr (w1, g1)
           \<and> w_pairCooldown w1 ''pet_a|pet_b'' = Some (21 / 2))
   \<and> (\<exists>w2. managerRun gardenRugs
              [(5, w_pets cooledWorld, w_api cooledWorld, sconst (1 / 2)),
               (5 + 1 / 60, w_pets cooledWorld, w_api cooledWorld, sconst (1 / 2))] cooledWorld = Inr w2
           \<and> cooldownAtLeast ''pet_a|pet_b'' (21 / 2) w2
           \<and> noPairGreetBefore ''pet_a'' ''pet_b'' (21 / 2) cooledWorld w2)"
proof
  let ?a = "mkPet ''pet_a'' (0, 0)" and ?b = "mkPet ''pet_b'' (1.5, 0)"
  let ?w = "mountedWorld [?a, ?b] 29"
  obtain w1 g1 where e: "greet gardenRugs (1 / 2) ?a ?b
               (getPose ?a (initPetState (petProps ?a))) (getPose ?b (initPetState (petProps ?b)))
               ?w (sconst 0) = Inr (w1, g1)"
    using greet_total[OF unit_draws_zero gardenRugs_nonempty] by blast
  have "w_pairCooldown w1 (getPairKey (pet_id ?a) (pet_id ?b)) = Some (1 / 2 + 10)"
    using pair_cooldown [of _ _ gardenRugs "1 / 2" ?a ?b _ _ ?w "sconst 0" w1 g1] e by blast
  then have "w_pairCooldown w1 ''pet_a|pet_b'' = Some (21 / 2)"
    by (simp add: getPairKey_def mkPet_def)
  with e show "\<exists>w1 g1. greet gardenRugs (1 / 2) ?a ?b
               (getPose ?a (initPetState (petProps ?a))) (getPose ?b (initPetState (petProps ?b)))
               ?w (sconst 0) = Inr (w1, g1) \<and> w_pairCooldown w1 ''pet_a|pet_b'' = Some (21 / 2)"
    by blast
next
  let ?ticks = "[(5, w_pets cooledWorld, w_api cooledWorld, sconst (1 / 2)),
               (5 + 1 / 60, w_pets cooledWorld, w_api cooledWorld, sconst (1 / 2))]"
  have "\<forall>k \<in> set ?ticks. unit_draws (snd (snd (snd k)))" using unit_draws_half by simp
  from managerRun_total[OF gardenRugs_nonempty this]
  obtain w2 where e: "managerRun gardenRugs ?ticks cooledWorld = Inr w2" by blast
  have k: "getPairKey ''pet_a'' ''pet_b'' = ''pet_a|pet_b''" by (simp add: getPairKey_def)
  have c: "cooldownAtLeast (getPairKey ''pet_a'' ''pet_b'') (21 / 2) cooledWorld"
    by (simp add: k cooldownAtLeast_def cooledWorld_def)
  from pair_cooldown [of "''pet_a''" "''pet_b''" gardenRugs _ _ _ _ _ cooledWorld _ _ _ "21 / 2" _ _ _ _
      ?ticks w2] c e
  have "cooldownAtLeast (getPairKey ''pet_a'' ''pet_b'') (21 / 2) w2
      \<and> noPairGreetBefore ''pet_a'' ''pet_b'' (21 / 2) cooledWorld w2" by blast
  with e k show "\<exists>w2. managerRun gardenRugs ?ticks cooledWorld = Inr w2
           \<and> cooldownAtLeast ''pet_a|pet_b'' (21 / 2) w2
           \<and> noPairGreetBefore ''pet_a'' ''pet_b'' (21 / 2) cooledWorld w2"
    by auto
qed

section \<open>The chaser/runner draw\<close>

lemma maybeStartChase_result:
  assumes "maybeStartChase ch pets t g = Inr (started, ch', g')"
  shows "(started \<longrightarrow> c_active ch' \<and> c_chaserId ch' \<noteq> None \<and> c_runnerId ch' \<noteq> None
                      \<and> c_chaserId ch' \<noteq> c_runnerId ch')
       \<and> (\<not> started \<longrightarrow> ch' = ch)"
  using assms unfolding maybeStartChase_def
  by (auto split: if_splits sum.splits)

text \<open>
  Claim C2, at a failing input of the manager of the garden scene: the two first default pets,
  a chase roll of \<open>0.0005\<close> (below \<open>0.04 / 60\<close>) and every later draw \<open>0.25\<close>. Every pick
  returns the first pet, the retry loop gives up after six retries, and the episode is started
  with \<open>pet_a\<close> as both chaser and runner.
\<close>

theorem garden_chase_same_agent:
  "(case managerFrame gardenRugs 1
           (mountedWorld [mkPet ''pet_a'' (- 2.0, 0.5), mkPet ''pet_b'' (2.1, - 1.2)] 0)
           (1 / 2000 ## sconst (1 / 4)) of
      Inl e \<Rightarrow> False
    | Inr (w, g) \<Rightarrow> c_active (w_chaseMode w)
         \<and> c_chaserId (w_chaseMode w) = Some ''pet_a''
         \<and> c_runnerId (w_chaseMode w) = Some ''pet_a'')"
  by (simp add: frame_eval)

section \<open>Guards of the steering divisions\<close>

text \<open>Seeking a target that is within the epsilon adds no steering: the velocity is only damped.\<close>

lemma seek_near_target:
  assumes "sqrt (fst off * fst off + snd off * snd off) \<le> 0.001"
  shows "seek v off gain dt = (fst v * (0.86 powr (dt * 60)), snd v * (0.86 powr (dt * 60)))"
  using assms by (simp add: seek_def Let_def)

lemma seek_far_target:
  assumes "sqrt (fst off * fst off + snd off * snd off) > 0.001"
  shows "seek v off gain dt =
           ((fst v + fst off / sqrt (fst off * fst off + snd off * snd off) * gain) * (0.86 powr (dt * 60)),
            (snd v + snd off / sqrt (fst off * fst off + snd off * snd off) * gain) * (0.86 powr (dt * 60)))"
  using assms by (simp add: seek_def Let_def)

text \<open>Offsets no longer than \<open>0.01\<close> and offsets beyond the radius add nothing to the
  separation.\<close>

lemma separationStep_guard:
  assumes "(fst pos - p_x (snd entry)) * (fst pos - p_x (snd entry))
             + (snd pos - p_z (snd entry)) * (snd pos - p_z (snd entry)) \<le> 0.0001"
  shows "separationStep pos selfId radius sep entry = sep"
  using assms by (simp add: separationStep_def Let_def)

text \<open>In the wander branch a steering vector no longer than the epsilon is used as it is.\<close>

lemma wander_uses_short_vector:
  "calculateMovement
      \<lparr> b_mode = Wandering, b_t = 0, b_seed = 0, b_walkS = 0, b_restSpot = (0, 0, 0),
        b_lastInteractAt = 0 \<rparr>
      (0, 0) (0, 0)
      \<lparr> mp_dt = 1 / 60, mp_time = 0, mp_bounds = ROOM_BOUNDS, mp_playerPos = (0, 8),
        mp_chaseMode = None,
        mp_separationVec = Some (1 / 2000 - noise1D 0 0, - noise1D 100 0),
        mp_isMobile = False, mp_baseY = BASE_Y \<rparr>
   = (1 / 2000 * 1.25 * (1 / 60) * 2.6 * 0.88, 0)"
  by (simp add: calculateMovement_def wanderSteer_def ROOM_BOUNDS_def Let_def)

end
